theory Spec2Isabelle
  imports Complex_Main "HOL-Library.Sublist"
begin

section \<open>Python values and the exceptions of the source\<close>

text \<open>
  Every value the program handles comes out of a decoded JSON document (the webhook
  payload, a backend reply, a store row), so one datatype of Python values covers
  them.  A \<open>str\<close> is the list of the bytes of its UTF-8 encoding; a \<open>dict\<close> has
  \<open>str\<close> keys and is an association list read with \<open>map_of\<close>; a finite \<open>float\<close>
  is the rational number it denotes.
\<close>

datatype pyval =
    PNone
  | PBool bool
  | PInt int
  | PFloat rat
  | PStr string
  | PList "pyval list"
  | PDict "(string \<times> pyval) list"

datatype py_error = KeyError | IndexError | TypeError | AttributeError

text \<open>Python's truth value of an object, as \<open>if x:\<close> and \<open>not x\<close> and \<open>and\<close> test it.\<close>

fun truthy :: "pyval \<Rightarrow> bool" where
  "truthy PNone = False"
| "truthy (PBool b) = b"
| "truthy (PInt i) = (i \<noteq> 0)"
| "truthy (PFloat r) = (r \<noteq> 0)"
| "truthy (PStr s) = (s \<noteq> [])"
| "truthy (PList xs) = (xs \<noteq> [])"
| "truthy (PDict kvs) = (kvs \<noteq> [])"

text \<open>Sequencing of computations that may raise: the first exception wins.\<close>

definition bind_exc :: "'e + 'a \<Rightarrow> ('a \<Rightarrow> 'e + 'b) \<Rightarrow> 'e + 'b" where
  "bind_exc m f = (case m of Inl e \<Rightarrow> Inl e | Inr x \<Rightarrow> f x)"

text \<open>\<open>v.get(k, d)\<close>: only a \<open>dict\<close> has the method.\<close>

fun py_get_default :: "pyval \<Rightarrow> string \<Rightarrow> pyval \<Rightarrow> py_error + pyval" where
  "py_get_default (PDict kvs) k d = Inr (case map_of kvs k of None \<Rightarrow> d | Some v \<Rightarrow> v)"
| "py_get_default _ k d = Inl AttributeError"

text \<open>\<open>v.get(k)\<close>, whose default is \<open>None\<close>.\<close>

definition py_get :: "pyval \<Rightarrow> string \<Rightarrow> py_error + pyval" where
  "py_get v k = py_get_default v k PNone"

text \<open>\<open>v['k']\<close> with a \<open>str\<close> key: a missing key of a \<open>dict\<close> is a \<open>KeyError\<close>; a
  list or a \<open>str\<close> refuses a \<open>str\<close> index and the other values are not subscriptable,
  both with a \<open>TypeError\<close>.\<close>

fun py_item :: "pyval \<Rightarrow> string \<Rightarrow> py_error + pyval" where
  "py_item (PDict kvs) k = (case map_of kvs k of None \<Rightarrow> Inl KeyError | Some v \<Rightarrow> Inr v)"
| "py_item _ k = Inl TypeError"

text \<open>The number of bytes of the UTF-8 sequence that a lead byte starts.\<close>

definition utf8_width :: "char \<Rightarrow> nat" where
  "utf8_width c =
     (let n = (of_char c :: nat)
      in if n < 0xC0 then 1 else if n < 0xE0 then 2 else if n < 0xF0 then 3 else 4)"

text \<open>\<open>v[0]\<close>: the first element of a list, the first character of a \<open>str\<close>
  (\<open>IndexError\<close> when empty); a \<open>dict\<close> with \<open>str\<close> keys has no key \<open>0\<close>.\<close>

fun py_first :: "pyval \<Rightarrow> py_error + pyval" where
  "py_first (PList xs) = (case xs of [] \<Rightarrow> Inl IndexError | x # _ \<Rightarrow> Inr x)"
| "py_first (PStr s) =
     (case s of [] \<Rightarrow> Inl IndexError | c # _ \<Rightarrow> Inr (PStr (take (utf8_width c) s)))"
| "py_first (PDict kvs) = Inl KeyError"
| "py_first _ = Inl TypeError"

text \<open>\<open>x[:n]\<close> is defined on \<open>str\<close> and \<open>list\<close>, \<open>len(x)\<close> on these and on \<open>dict\<close>;
  elsewhere both raise \<open>TypeError\<close>.  The program slices and measures values only to
  print them, so the model keeps the test and drops the result.\<close>

fun sliceable :: "pyval \<Rightarrow> bool" where
  "sliceable (PStr s) = True"
| "sliceable (PList xs) = True"
| "sliceable _ = False"

fun sized :: "pyval \<Rightarrow> bool" where
  "sized (PStr s) = True"
| "sized (PList xs) = True"
| "sized (PDict kvs) = True"
| "sized _ = False"

section \<open>Webhook codec: decoding (whatsapp\_service.parse\_whatsapp\_message)\<close>

text \<open>
  The body of the \<open>try\<close> block.  \<open>Inr (Some (sender_phone, message_text))\<close> is the
  \<open>return sender_phone, message_text\<close> of the text branch, \<open>Inr None\<close> is falling
  out of the \<open>if\<close> (no message structure, or a message that is not of type text),
  \<open>Inl e\<close> is the exception \<open>e\<close> raised on the way.  The subexpressions
  \<open>payload['entry']\<close>, \<open>payload['entry'][0]\<close>, ... that the source evaluates again are
  pure, so each is bound once, at its first evaluation.
\<close>

definition parse_try :: "pyval \<Rightarrow> py_error + (pyval \<times> pyval) option" where
  "parse_try payload =
     bind_exc (py_get payload ''entry'') (\<lambda>entry.
     if \<not> truthy entry then Inr None else
     bind_exc (py_first entry) (\<lambda>entry0.
     bind_exc (py_get entry0 ''changes'') (\<lambda>changes.
     if \<not> truthy changes then Inr None else
     bind_exc (py_first changes) (\<lambda>change0.
     bind_exc (py_get change0 ''value'') (\<lambda>val.
     if \<not> truthy val then Inr None else
     bind_exc (py_get val ''messages'') (\<lambda>messages.
     if \<not> truthy messages then Inr None else
     bind_exc (py_first messages) (\<lambda>message_details.
     bind_exc (py_get_default message_details ''type'' (PStr ''unknown'')) (\<lambda>printed.
     bind_exc (py_item message_details ''type'') (\<lambda>ty.
     if ty = PStr ''text'' then
       bind_exc (py_item message_details ''from'') (\<lambda>sender_phone.
       bind_exc (py_item message_details ''text'') (\<lambda>text.
       bind_exc (py_item text ''body'') (\<lambda>message_text.
       Inr (Some (sender_phone, message_text)))))
     else Inr None)))))))))"

text \<open>
  The whole function: \<open>except (KeyError, IndexError)\<close> and the fall-through both end in
  \<open>return None, None\<close>; any other exception leaves the function.
\<close>

definition parse_whatsapp_message :: "pyval \<Rightarrow> py_error + pyval \<times> pyval" where
  "parse_whatsapp_message payload =
     (case parse_try payload of
        Inr (Some r) \<Rightarrow> Inr r
      | Inr None \<Rightarrow> Inr (PNone, PNone)
      | Inl KeyError \<Rightarrow> Inr (PNone, PNone)
      | Inl IndexError \<Rightarrow> Inr (PNone, PNone)
      | Inl e \<Rightarrow> Inl e)"

section \<open>The external collaborators\<close>

text \<open>
  The identity and history store, the embedding backend, the similarity search, the
  generation backend and the provider's delivery endpoint are services outside the
  repository.  Every request the program issues to one of them is appended to a trace.
\<close>

datatype call =
    HistoryInsert pyval string pyval
  | HistorySelectAll pyval
  | HistoryDelete "nat list"
  | UsersSelect pyval
  | HistorySelectRecent pyval nat
  | EmbeddingCall pyval
  | SimilaritySearch pyval pyval nat
  | GenerationCall "(string \<times> string) list"
  | DeliveryCall pyval pyval

text \<open>
  Modelled from the spec: the two tables behind the Supabase client, whose schema and
  engine are not in the repository.  \<open>users\<close> maps a phone number to a namespace;
  \<open>conversation_history\<close> holds (phone number, sender role, message, timestamp), the
  timestamp being the implicit ordering key that the store assigns at insertion, with
  the row id that the delete addresses.
\<close>

record user_row =
  phone_number :: pyval
  pinecone_namespace :: pyval

record history_row =
  row_id :: nat
  user_phone_number :: pyval
  sender :: string
  message :: pyval
  timestamp :: nat

record world =
  users :: "user_row list"
  conversation_history :: "history_row list"
  next_id :: nat
  clock :: nat
  trace :: "call list"

text \<open>
  What the program cannot decide is a parameter.  Each backend answers the request
  that ends the trace it is given, so an answer may depend on everything requested
  before; \<open>None\<close> is a call that raised.
  \<^item> \<open>store_fails\<close>: the store request raises (any Supabase \<open>execute()\<close>);
  \<^item> \<open>embedding_backend\<close>: the \<open>embedding\<close> field of the decoded Bedrock reply,
    \<open>None\<close> when the client, the call, the decoding or the field lookup raises;
  \<^item> \<open>search_backend\<close>: the Pinecone query result;
  \<^item> \<open>generation_backend\<close>: the decoded body of the OpenRouter reply, \<open>None\<close> for
    a \<open>requests.exceptions.RequestException\<close> (transport error, status that
    \<open>raise_for_status\<close> rejects, body that \<open>response.json()\<close> cannot decode);
  \<^item> \<open>json_loads\<close>: the standard library's \<open>json.loads\<close> on a \<open>str\<close>, \<open>None\<close> for
    \<open>json.JSONDecodeError\<close>;
  \<^item> \<open>py_str\<close>: the built-in \<open>str()\<close> that an f-string applies to a value that is
    not a \<open>str\<close> already.
  The outcome of the delivery request changes nothing but the log lines (its
  \<open>RequestException\<close> is caught in place), so it needs no parameter.
\<close>

record env =
  store_fails :: "call list \<Rightarrow> bool"
  embedding_backend :: "call list \<Rightarrow> pyval option"
  search_backend :: "call list \<Rightarrow> pyval option"
  generation_backend :: "call list \<Rightarrow> pyval option"
  json_loads :: "string \<Rightarrow> pyval option"
  py_str :: "pyval \<Rightarrow> string"

definition issue :: "world \<Rightarrow> call \<Rightarrow> world" where
  "issue w c = w\<lparr>trace := trace w @ [c]\<rparr>"

text \<open>An f-string field \<open>{v}\<close>.\<close>

definition py_format :: "env \<Rightarrow> pyval \<Rightarrow> string" where
  "py_format e v = (case v of PStr s \<Rightarrow> s | _ \<Rightarrow> py_str e v)"

section \<open>History store adapter (data\_service)\<close>

text \<open>
  Modelled from the spec: the filtered reads of the store.  \<open>eq\<close> keeps the rows of
  one phone number; \<open>order('timestamp', desc=False)\<close> sorts by the ordering key,
  oldest first; \<open>desc=True\<close> is that order reversed.
\<close>

definition rows_of :: "pyval \<Rightarrow> history_row list \<Rightarrow> history_row list" where
  "rows_of phone rows = filter (\<lambda>r. user_phone_number r = phone) rows"

definition oldest_first :: "history_row list \<Rightarrow> history_row list" where
  "oldest_first rows = sort_key timestamp rows"

definition newest_first :: "history_row list \<Rightarrow> history_row list" where
  "newest_first rows = rev (oldest_first rows)"

text \<open>data\_service.get\_user\_namespace: the namespace of the first matching row, \<open>None\<close>
  when there is none or the store raises.\<close>

definition get_user_namespace :: "env \<Rightarrow> world \<Rightarrow> pyval \<Rightarrow> world \<times> pyval" where
  "get_user_namespace e w phone =
     (let w1 = issue w (UsersSelect phone)
      in if store_fails e (trace w1) then (w1, PNone)
         else (case filter (\<lambda>r. phone_number r = phone) (users w1) of
                 [] \<Rightarrow> (w1, PNone)
               | r # _ \<Rightarrow> (w1, pinecone_namespace r)))"

text \<open>data\_service.get\_conversation\_history: the \<open>limit\<close> newest rows, reversed back to
  oldest first, each with its \<open>sender\<close> and \<open>message\<close>; \<open>[]\<close> when the store raises.\<close>

definition get_conversation_history ::
  "env \<Rightarrow> world \<Rightarrow> pyval \<Rightarrow> nat \<Rightarrow> world \<times> (string \<times> pyval) list" where
  "get_conversation_history e w phone limit =
     (let w1 = issue w (HistorySelectRecent phone limit)
      in if store_fails e (trace w1) then (w1, [])
         else (let data = take limit (newest_first (rows_of phone (conversation_history w1)));
                   history = rev data
               in (w1, map (\<lambda>r. (sender r, message r)) history)))"

text \<open>The insert: the store gives the new row its id and its timestamp.\<close>

definition insert_row :: "world \<Rightarrow> pyval \<Rightarrow> string \<Rightarrow> pyval \<Rightarrow> world" where
  "insert_row w phone role msg =
     w\<lparr>conversation_history := conversation_history w @
          [\<lparr>row_id = next_id w, user_phone_number = phone, sender = role,
            message = msg, timestamp = clock w\<rparr>],
       next_id := Suc (next_id w),
       clock := Suc (clock w)\<rparr>"

definition delete_rows :: "world \<Rightarrow> nat list \<Rightarrow> world" where
  "delete_rows w ids =
     w\<lparr>conversation_history := filter (\<lambda>r. row_id r \<notin> set ids) (conversation_history w)\<rparr>"

text \<open>
  data\_service.add\_message\_to\_history: insert, read all the sender's rows oldest first,
  and when there are more than 20 delete the first \<open>count - 20\<close> of them by id.  The
  whole body is inside \<open>try ... except Exception\<close>: a request that raises ends the
  function where it stands, with what was done before kept.
\<close>

definition add_message_to_history :: "env \<Rightarrow> world \<Rightarrow> pyval \<Rightarrow> string \<Rightarrow> pyval \<Rightarrow> world" where
  "add_message_to_history e w phone role msg =
     (let w1 = issue w (HistoryInsert phone role msg)
      in if store_fails e (trace w1) then w1
         else
          (let w2 = insert_row w1 phone role msg;
               w3 = issue w2 (HistorySelectAll phone)
           in if store_fails e (trace w3) then w3
              else
               (let all_messages = oldest_first (rows_of phone (conversation_history w3));
                    message_count = length all_messages
                in if message_count > 20 then
                     (let num_to_delete = message_count - 20;
                          ids_to_delete = map row_id (take num_to_delete all_messages)
                      in if ids_to_delete \<noteq> [] then
                           (let w4 = issue w3 (HistoryDelete ids_to_delete)
                            in if store_fails e (trace w4) then w4
                               else delete_rows w4 ids_to_delete)
                         else w3)
                   else w3)))"

section \<open>Context retriever (rag\_service)\<close>

text \<open>
  rag\_service.get\_bedrock\_embedding.  The first \<open>print\<close> slices and measures the text
  and the last one measures the embedding; both are inside the \<open>try\<close>, so a value
  that cannot be sliced or measured ends in \<open>return []\<close> like any backend error.
\<close>

definition get_bedrock_embedding :: "env \<Rightarrow> world \<Rightarrow> pyval \<Rightarrow> world \<times> pyval" where
  "get_bedrock_embedding e w text =
     (if \<not> sliceable text then (w, PList [])
      else (let w1 = issue w (EmbeddingCall text)
            in (case embedding_backend e (trace w1) of
                  None \<Rightarrow> (w1, PList [])
                | Some embedding \<Rightarrow>
                    if sized embedding then (w1, embedding) else (w1, PList []))))"

text \<open>
  One turn of the loop over the matches: the text of the match's metadata when there is
  one and it is truthy.  An exception raised before the \<open>append\<close> (a match or a
  metadata without \<open>get\<close>) is caught by the inner \<open>except Exception\<close> and the loop
  goes on; what can raise after the \<open>append\<close> (formatting the score) no longer
  matters.
\<close>

definition match_text :: "pyval \<Rightarrow> pyval list" where
  "match_text m =
     (case bind_exc (py_get_default m ''score'' (PInt 0)) (\<lambda>score.
           bind_exc (py_get_default m ''metadata'' (PDict [])) (\<lambda>metadata.
           py_get_default metadata ''text'' (PStr []))) of
        Inl err \<Rightarrow> []
      | Inr text_content \<Rightarrow> if truthy text_content then [text_content] else [])"

text \<open>
  The matches the loop visits.  Iterating a \<open>str\<close> or a \<open>dict\<close> yields \<open>str\<close>s, on
  which \<open>match.get\<close> raises inside the loop, so nothing is collected from them; a value
  without \<open>len\<close> makes the \<open>print\<close> before the loop raise, which the outer
  \<open>except Exception\<close> turns into \<open>return []\<close>.
\<close>

fun collect_contexts :: "pyval \<Rightarrow> pyval list" where
  "collect_contexts (PList ms) = concat (map match_text ms)"
| "collect_contexts _ = []"

text \<open>rag\_service.query\_pinecone, whole body inside \<open>try ... except Exception\<close>.\<close>

definition query_pinecone :: "env \<Rightarrow> world \<Rightarrow> pyval \<Rightarrow> pyval \<Rightarrow> nat \<Rightarrow> world \<times> pyval list" where
  "query_pinecone e w query_text namespace top_k =
     (case get_bedrock_embedding e w query_text of (w1, query_embedding) \<Rightarrow>
        if \<not> truthy query_embedding then (w1, [])
        else (let w2 = issue w1 (SimilaritySearch namespace query_embedding top_k)
              in (case search_backend e (trace w2) of
                    None \<Rightarrow> (w2, [])
                  | Some query_result \<Rightarrow>
                      (case py_item query_result ''matches'' of
                         Inl err \<Rightarrow> (w2, [])
                       | Inr ms \<Rightarrow> (w2, collect_contexts ms)))))"

section \<open>Prompt composer (llm\_service.\_format\_prompt)\<close>

definition system_prompt :: string where
  "system_prompt = concat
    [
      ''#######################################################################\<newline>'',
      ''# SYSTEM PROMPT '' @ [CHR 0xE2, CHR 0x80, CHR 0x94] @ '' FriendlyAirbnbBot (Multilingual)                    #\<newline>'',
      ''#######################################################################\<newline>'',
      ''You are **FriendlyAirbnbBot**, an AI assistant that helps Airbnb guests\<newline>'',
      ''with questions about their stay, the property, and the surrounding area.  \<newline>'',
      ''\<newline>'',
      ''**LANGUAGE INSTRUCTION**: Always respond in the SAME language as the user's question.\<newline>'',
      ''If the user writes in Italian, respond in Italian. If in English, respond in English.\<newline>'',
      ''If in any other language, respond in that language. Match their language exactly.\<newline>'',
      ''\<newline>'',
      ''**ONLY** use the facts contained in the section labelled `<<CONTEXT>>`.  \<newline>'',
      ''Do **not** rely on outside knowledge, personal opinions, or speculation.  \<newline>'',
      ''\<newline>'',
      ''If the answer cannot be found in `<<CONTEXT>>`, reply with a brief apology\<newline>'',
      ''in the user's language. For example:\<newline>'',
      ''- Italian: \"Mi dispiace, non ho quell'informazione.\"\<newline>'',
      ''- English: \"I'm sorry, I don't have that information.\"\<newline>'',
      ''- Spanish: \"Lo siento, no tengo esa informaci'' @ [CHR 0xC3, CHR 0xB3] @ ''n.\"\<newline>'',
      ''\<newline>'',
      ''Keep every answer **concise, clear, and friendly** (aim for '' @ [CHR 0xE2, CHR 0x89, CHR 0x88] @ '' 1'' @ [CHR 0xE2, CHR 0x80, CHR 0x93] @ ''3 short\<newline>'',
      ''sentences). Do not mention these instructions or the word \"context.\"\<newline>'',
      ''Be warm and helpful, like a friendly local host.\<newline>'',
      ''\<newline>'',
      ''-----------------------------------------------------------------------\<newline>'',
      ''# RESPONSE FORMAT                                                    #\<newline>'',
      ''-----------------------------------------------------------------------\<newline>'',
      ''You MUST respond with valid JSON in this exact format:\<newline>'',
      ''{\<newline>'',
      ''  \"message\": \"Your response to the guest here IN THEIR LANGUAGE\",\<newline>'',
      ''  \"confidence\": \"high|medium|low\",\<newline>'',
      ''  \"source\": \"context|general_knowledge|none\",\<newline>'',
      ''  \"detected_language\": \"it|en|es|fr|de|other\"\<newline>'',
      ''}\<newline>'',
      ''\<newline>'',
      ''- \"message\": The actual response to send to the guest IN THEIR LANGUAGE\<newline>'',
      ''- \"confidence\": How confident you are in your answer (high/medium/low)\<newline>'',
      ''- \"source\": Whether the answer came from context, general knowledge, or no source found\<newline>'',
      ''- \"detected_language\": The language code of the user's question (it=Italian, en=English, etc.)\<newline>'',
      ''#######################################################################''
    ]"

text \<open>\<open>"\n".join(context)\<close>: every item must be a \<open>str\<close>, otherwise \<open>TypeError\<close>.\<close>

fun strs_of :: "pyval list \<Rightarrow> string list option" where
  "strs_of [] = Some []"
| "strs_of (PStr s # vs) = (case strs_of vs of None \<Rightarrow> None | Some ss \<Rightarrow> Some (s # ss))"
| "strs_of (v # vs) = None"

fun join_newline :: "string list \<Rightarrow> string" where
  "join_newline [] = []"
| "join_newline [s] = s"
| "join_newline (s # t # ss) = s @ ''\<newline>'' @ join_newline (t # ss)"

definition context_section :: "pyval list \<Rightarrow> py_error + string" where
  "context_section context =
     (if context \<noteq> [] then
        (case strs_of context of
           None \<Rightarrow> Inl TypeError
         | Some ss \<Rightarrow> Inr (''<<CONTEXT>>\<newline>'' @ join_newline ss @ ''\<newline><<END CONTEXT>>''))
      else Inr ''<<CONTEXT>>\<newline>(No relevant information found)\<newline><<END CONTEXT>>'')"

text \<open>One line per history entry: \<open>f"{role}: {msg['message']}\n"\<close>.\<close>

definition history_line :: "env \<Rightarrow> string \<times> pyval \<Rightarrow> string" where
  "history_line e msg =
     (if fst msg = ''user'' then ''Guest'' else ''Bot'') @ '': '' @ py_format e (snd msg)
       @ ''\<newline>''"

definition history_section :: "env \<Rightarrow> (string \<times> pyval) list \<Rightarrow> string" where
  "history_section e history =
     ''<<CONVERSATION HISTORY>>\<newline>'' @
     (if history \<noteq> [] then concat (map (history_line e) history)
      else ''(No previous conversation)\<newline>'') @
     ''<<END CONVERSATION HISTORY>>''"

definition user_question_section :: "env \<Rightarrow> pyval \<Rightarrow> string" where
  "user_question_section e user_query =
     ''<<USER QUESTION>>\<newline>'' @ py_format e user_query @ ''\<newline><<END USER QUESTION>>''"

text \<open>The combined user turn:
  \<open>f"{context_section}\n\n{history_section}\n\n{user_question_section}"\<close>.\<close>

definition full_prompt :: "env \<Rightarrow> pyval \<Rightarrow> (string \<times> pyval) list \<Rightarrow> pyval list \<Rightarrow> py_error + string" where
  "full_prompt e user_query history context =
     bind_exc (context_section context) (\<lambda>cs.
       Inr (cs @ ''\<newline>\<newline>'' @ history_section e history @ ''\<newline>\<newline>''
              @ user_question_section e user_query))"

text \<open>The two messages, each a (role, content) pair.\<close>

definition format_prompt ::
  "env \<Rightarrow> pyval \<Rightarrow> (string \<times> pyval) list \<Rightarrow> pyval list \<Rightarrow> py_error + (string \<times> string) list" where
  "format_prompt e user_query history context =
     bind_exc (full_prompt e user_query history context) (\<lambda>p.
       Inr [(''system'', system_prompt), (''user'', p)])"

section \<open>Response generator adapter (llm\_service.get\_llm\_response)\<close>

text \<open>\<open>pat in s\<close> on strings.\<close>

fun contains :: "string \<Rightarrow> string \<Rightarrow> bool" where
  "contains pat [] = (pat = [])"
| "contains pat (c # cs) = (prefix pat (c # cs) \<or> contains pat cs)"

text \<open>
  The class \<open>\s\<close> of a \<open>str\<close> pattern is the characters of \<open>str.isspace\<close>: U+0009 to
  U+000D, U+001C to U+0020, U+0085, U+00A0, U+1680, U+2000 to U+200A, U+2028, U+2029,
  U+202F, U+205F and U+3000.  \<open>ws_width s\<close> is the number of bytes of the one that
  starts \<open>s\<close>, and 0 when none does.
\<close>

definition ws_width :: "string \<Rightarrow> nat" where
  "ws_width s =
     (case map (of_char :: char \<Rightarrow> nat) s of
        [] \<Rightarrow> 0
      | a # r \<Rightarrow>
          if (0x09 \<le> a \<and> a \<le> 0x0D) \<or> (0x1C \<le> a \<and> a \<le> 0x20) then 1
          else (case r of
                  [] \<Rightarrow> 0
                | b # r' \<Rightarrow>
                    if a = 0xC2 \<and> (b = 0x85 \<or> b = 0xA0) then 2
                    else (case r' of
                            [] \<Rightarrow> 0
                          | c # r'' \<Rightarrow>
                              if (a = 0xE1 \<and> b = 0x9A \<and> c = 0x80)
                                 \<or> (a = 0xE2 \<and> b = 0x80 \<and>
                                      ((0x80 \<le> c \<and> c \<le> 0x8A) \<or> c = 0xA8 \<or> c = 0xA9 \<or> c = 0xAF))
                                 \<or> (a = 0xE2 \<and> b = 0x81 \<and> c = 0x9F)
                                 \<or> (a = 0xE3 \<and> b = 0x80 \<and> c = 0x80)
                              then 3 else 0)))"

text \<open>\<open>\s*\<close>: what is left after the longest run of whitespace.  Neither \<open>:\<close> nor
  \<open>"\<close> is whitespace, so giving some of the run back never helps the match.\<close>

lemma ws_width_Nil: "ws_width [] = 0"
  by (simp add: ws_width_def)

function skip_ws :: "string \<Rightarrow> string" where
  "skip_ws s = (if ws_width s = 0 then s else skip_ws (drop (ws_width s) s))"
  by pat_completeness auto
termination
proof (relation "measure length")
  show "wf (measure length)" by simp
next
  fix s :: string
  assume "ws_width s \<noteq> 0"
  then have "s \<noteq> []" and "0 < ws_width s" by (auto simp: ws_width_Nil)
  then show "(drop (ws_width s) s, s) \<in> measure length" by simp
qed

declare skip_ws.simps [simp del]

text \<open>
  The pattern \<open>"message"\s*:\s*"([^"]*)"\<close> matched at the start of the string; the
  result is group 1.  \<open>[^"]*\<close> takes every character up to the next quote, which must
  exist.
\<close>

definition match_at :: "string \<Rightarrow> string option" where
  "match_at s =
     (if prefix ''\"message\"'' s then
        (case skip_ws (drop 9 s) of
           [] \<Rightarrow> None
         | c # r1 \<Rightarrow>
             if c = CHR '':'' then
               (case skip_ws r1 of
                  [] \<Rightarrow> None
                | d # r2 \<Rightarrow>
                    if d = CHR 0x22 then
                      (case dropWhile (\<lambda>x. x \<noteq> CHR 0x22) r2 of
                         [] \<Rightarrow> None
                       | q # r3 \<Rightarrow> Some (takeWhile (\<lambda>x. x \<noteq> CHR 0x22) r2))
                    else None)
             else None)
      else None)"

text \<open>\<open>re.search\<close>: the match at the leftmost position that has one.\<close>

fun re_search :: "string \<Rightarrow> string option" where
  "re_search [] = None"
| "re_search (c # cs) =
     (case match_at (c # cs) of Some g \<Rightarrow> Some g | None \<Rightarrow> re_search cs)"

text \<open>\<open>response_data['choices'][0]['message']['content']\<close>.\<close>

definition reply_content :: "pyval \<Rightarrow> py_error + pyval" where
  "reply_content response_data =
     bind_exc (py_item response_data ''choices'') (\<lambda>choices.
     bind_exc (py_first choices) (\<lambda>choice0.
     bind_exc (py_item choice0 ''message'') (\<lambda>m.
     py_item m ''content'')))"

text \<open>
  After a successful \<open>json.loads\<close>: the four \<open>get\<close>s, the \<open>print\<close> that slices and
  measures the message, the emptiness test.  (Slicing a \<open>dict\<close> is the \<open>TypeError\<close>
  of CPython before 3.12.)
\<close>

definition parsed_message :: "pyval \<Rightarrow> py_error + pyval" where
  "parsed_message parsed_response =
     bind_exc (py_get_default parsed_response ''message'' (PStr [])) (\<lambda>msg.
     bind_exc (py_get_default parsed_response ''confidence'' (PStr ''unknown'')) (\<lambda>confidence.
     bind_exc (py_get_default parsed_response ''source'' (PStr ''unknown'')) (\<lambda>source.
     bind_exc (py_get_default parsed_response ''detected_language'' (PStr ''unknown''))
       (\<lambda>detected_language.
     if \<not> sliceable msg then Inl TypeError
     else if \<not> truthy msg then Inr PNone
     else Inr msg))))"

text \<open>The \<open>except json.JSONDecodeError\<close> branch: the salvage by pattern.\<close>

definition fallback_message :: "string \<Rightarrow> pyval" where
  "fallback_message raw_response =
     (if contains ''\"message\"'' raw_response then
        (case re_search raw_response of
           Some g \<Rightarrow> PStr g
         | None \<Rightarrow> PNone)
      else PNone)"

text \<open>\<open>json.loads(raw_response)\<close> and what follows it; \<open>json.loads\<close> of a value that
  is not a \<open>str\<close> raises \<open>TypeError\<close>.\<close>

definition extract_message :: "env \<Rightarrow> pyval \<Rightarrow> py_error + pyval" where
  "extract_message e raw_response =
     (case raw_response of
        PStr s \<Rightarrow>
          (case json_loads e s of
             Some parsed_response \<Rightarrow> parsed_message parsed_response
           | None \<Rightarrow> Inr (fallback_message s))
      | _ \<Rightarrow> Inl TypeError)"

text \<open>
  The whole function.  The prompt is formatted before the \<open>try\<close>.  Inside it,
  \<open>RequestException\<close>, \<open>KeyError\<close> and \<open>IndexError\<close> end in \<open>return None\<close>; any other
  exception leaves the function.
\<close>

definition get_llm_response ::
  "env \<Rightarrow> world \<Rightarrow> pyval \<Rightarrow> (string \<times> pyval) list \<Rightarrow> pyval list \<Rightarrow> world \<times> (py_error + pyval)" where
  "get_llm_response e w user_query history context =
     (case format_prompt e user_query history context of
        Inl err \<Rightarrow> (w, Inl err)
      | Inr formatted_messages \<Rightarrow>
          (let w1 = issue w (GenerationCall formatted_messages)
           in (case generation_backend e (trace w1) of
                 None \<Rightarrow> (w1, Inr PNone)
               | Some response_data \<Rightarrow>
                   (case bind_exc (reply_content response_data) (extract_message e) of
                      Inl KeyError \<Rightarrow> (w1, Inr PNone)
                    | Inl IndexError \<Rightarrow> (w1, Inr PNone)
                    | Inl err \<Rightarrow> (w1, Inl err)
                    | Inr r \<Rightarrow> (w1, Inr r)))))"

section \<open>Webhook codec: delivery (whatsapp\_service.send\_whatsapp\_message)\<close>

text \<open>The \<open>print\<close> that slices the text is outside the \<open>try\<close>; then one POST to the
  provider, whose failure is caught and logged.\<close>

definition send_whatsapp_message :: "world \<Rightarrow> pyval \<Rightarrow> pyval \<Rightarrow> world \<times> (py_error + unit)" where
  "send_whatsapp_message w recipient_phone message_text =
     (if \<not> sliceable message_text then (w, Inl TypeError)
      else (issue w (DeliveryCall recipient_phone message_text), Inr ()))"

section \<open>Pipeline orchestrator (app.handle\_message)\<close>

definition profile_apology :: string where
  "profile_apology = ''Sorry, I can't seem to find your user profile. Please contact support.''"

definition generic_apology :: string where
  "generic_apology = ''I'm sorry, I encountered an error and can't respond right now.''"

definition ok_response :: "string \<times> nat" where
  "ok_response = (''OK'', 200)"

text \<open>
  The handler of \<open>POST /whatsapp\<close> on the decoded body of the request.  The result is
  the world it leaves behind and either the response it returns or the exception that
  leaves it.
\<close>

definition handle_message :: "env \<Rightarrow> world \<Rightarrow> pyval \<Rightarrow> world \<times> (py_error + string \<times> nat)" where
  "handle_message e w payload =
     (case parse_whatsapp_message payload of
        Inl err \<Rightarrow> (w, Inl err)
      | Inr (sender_phone, user_query) \<Rightarrow>
          if \<not> truthy sender_phone \<or> \<not> truthy user_query then (w, Inr ok_response)
          else
           (let w1 = add_message_to_history e w sender_phone ''user'' user_query
            in (case get_user_namespace e w1 sender_phone of (w2, namespace) \<Rightarrow>
                if \<not> truthy namespace then
                  (case send_whatsapp_message w2 sender_phone (PStr profile_apology) of
                     (w3, Inl err) \<Rightarrow> (w3, Inl err)
                   | (w3, Inr u) \<Rightarrow> (w3, Inr ok_response))
                else
                  (case get_conversation_history e w2 sender_phone 20 of (w3, history) \<Rightarrow>
                  (case query_pinecone e w3 user_query namespace 5 of (w4, context) \<Rightarrow>
                  (case get_llm_response e w4 user_query history context of
                     (w5, Inl err) \<Rightarrow> (w5, Inl err)
                   | (w5, Inr bot_response) \<Rightarrow>
                       (if truthy bot_response then
                          (if \<not> sliceable bot_response then (w5, Inl TypeError)
                           else
                            (case send_whatsapp_message w5 sender_phone bot_response of
                               (w6, Inl err) \<Rightarrow> (w6, Inl err)
                             | (w6, Inr u) \<Rightarrow>
                                 (add_message_to_history e w6 sender_phone ''bot'' bot_response,
                                  Inr ok_response)))
                        else
                          (case send_whatsapp_message w5 sender_phone (PStr generic_apology) of
                             (w6, Inl err) \<Rightarrow> (w6, Inl err)
                           | (w6, Inr u) \<Rightarrow> (w6, Inr ok_response)))))))))"

section \<open>Reading the trace\<close>

text \<open>The requests of the trim that follows an insert, and those of the retriever.\<close>

fun is_trim :: "call \<Rightarrow> bool" where
  "is_trim (HistorySelectAll p) = True"
| "is_trim (HistoryDelete ids) = True"
| "is_trim _ = False"

fun is_retrieval :: "call \<Rightarrow> bool" where
  "is_retrieval (EmbeddingCall t) = True"
| "is_retrieval (SimilaritySearch n v k) = True"
| "is_retrieval _ = False"

section \<open>The retriever's contract, in the spec's words\<close>

text \<open>
  The matches of a search answer in the order the backend ranks them (none when the call
  raised or the answer has no list of matches), and the \<open>text\<close> field of a match's
  metadata (\<open>None\<close> when the match has no metadata object or the metadata has no such
  field).
\<close>

definition metadata_text :: "pyval \<Rightarrow> pyval option" where
  "metadata_text m =
     (case m of
        PDict kv \<Rightarrow>
          (case map_of kv ''metadata'' of
             Some (PDict md) \<Rightarrow> map_of md ''text''
           | _ \<Rightarrow> None)
      | _ \<Rightarrow> None)"

definition ranked_matches :: "pyval option \<Rightarrow> pyval list" where
  "ranked_matches answer =
     (case answer of
        Some (PDict kv) \<Rightarrow> (case map_of kv ''matches'' of Some (PList ms) \<Rightarrow> ms | _ \<Rightarrow> [])
      | _ \<Rightarrow> [])"

section \<open>The decoder's contract, in the spec's words\<close>

text \<open>
  The first element of a list, when it is an object; the first message of a payload: the
  payload's \<open>entry\<close> starts with an object, whose \<open>changes\<close> starts with an object,
  whose \<open>value\<close> is an object, whose \<open>messages\<close> is a list that starts with the
  message.  The spec's condition for a successful decode is that this message exists
  and its type is \<open>"text"\<close>.
\<close>

definition first_dict :: "pyval option \<Rightarrow> (string \<times> pyval) list option" where
  "first_dict v = (case v of Some (PList (PDict kv # rest)) \<Rightarrow> Some kv | _ \<Rightarrow> None)"

definition first_message :: "pyval \<Rightarrow> (string \<times> pyval) list option" where
  "first_message payload =
     (case payload of
        PDict kv \<Rightarrow>
          (case first_dict (map_of kv ''entry'') of
             Some entry \<Rightarrow>
               (case first_dict (map_of entry ''changes'') of
                  Some change \<Rightarrow>
                    (case map_of change ''value'' of
                       Some (PDict val) \<Rightarrow> first_dict (map_of val ''messages'')
                     | _ \<Rightarrow> None)
                | None \<Rightarrow> None)
           | None \<Rightarrow> None)
      | _ \<Rightarrow> None)"

definition has_text_message :: "pyval \<Rightarrow> bool" where
  "has_text_message payload =
     (case first_message payload of
        Some msg \<Rightarrow> map_of msg ''type'' = Some (PStr ''text'')
      | None \<Rightarrow> False)"

section \<open>Reading the store\<close>

text \<open>
  The row that an insert adds to the table; the invariant of the store (row ids are
  unique and below the next id, no timestamp is ahead of the clock); and two worlds
  that differ in their trace only.
\<close>

definition inserted_row :: "world \<Rightarrow> pyval \<Rightarrow> string \<Rightarrow> pyval \<Rightarrow> history_row" where
  "inserted_row w phone role msg =
     \<lparr>row_id = next_id w, user_phone_number = phone, sender = role, message = msg,
      timestamp = clock w\<rparr>"

definition wf_store :: "world \<Rightarrow> bool" where
  "wf_store w \<longleftrightarrow>
     distinct (map row_id (conversation_history w))
     \<and> (\<forall>r\<in>set (conversation_history w). row_id r < next_id w \<and> timestamp r \<le> clock w)"

definition same_store :: "world \<Rightarrow> world \<Rightarrow> bool" where
  "same_store w w' \<longleftrightarrow>
     conversation_history w' = conversation_history w \<and> next_id w' = next_id w
     \<and> clock w' = clock w"

section \<open>Sample inputs\<close>

text \<open>A text message as the provider delivers it, with the given body.\<close>

definition text_payload :: "string \<Rightarrow> pyval" where
  "text_payload body =
     PDict [(''object'', PStr ''whatsapp_business_account''),
            (''entry'', PList [PDict [(''id'', PStr ''ACCOUNT_ID''),
               (''changes'', PList [PDict [(''value'',
                  PDict [(''messaging_product'', PStr ''whatsapp''),
                         (''messages'', PList [PDict [(''from'', PStr ''11234567890''),
                            (''id'', PStr ''MSG_ID''),
                            (''text'', PDict [(''body'', PStr body)]),
                            (''type'', PStr ''text'')]])]),
                  (''field'', PStr ''messages'')]])]])]"

text \<open>The structured reply of the generation backend, as text and as \<open>json.loads\<close>
  decodes it.\<close>

definition yes_reply :: string where
  "yes_reply =
     ''{\"message\":\"Yes\",\"confidence\":\"high\",\"source\":\"context\",\"detected_language\":\"en\"}''"

definition yes_parsed :: pyval where
  "yes_parsed =
     PDict [(''message'', PStr ''Yes''), (''confidence'', PStr ''high''),
            (''source'', PStr ''context''), (''detected_language'', PStr ''en'')]"

text \<open>Backends that all answer: a three-dimensional embedding, two matches of which the
  second has no text, the structured reply above.\<close>

definition demo_env :: env where
  "demo_env =
     \<lparr>store_fails = (\<lambda>t. False),
      embedding_backend = (\<lambda>t. Some (PList [PInt 1, PInt 2, PInt 3])),
      search_backend = (\<lambda>t. Some (PDict [(''matches'',
         PList [PDict [(''score'', PInt 1),
                       (''metadata'', PDict [(''text'', PStr ''Breakfast is served 7-10.'')])],
                PDict [(''score'', PInt 0), (''metadata'', PDict [(''page'', PInt 4)])]])])),
      generation_backend = (\<lambda>t. Some (PDict [(''choices'',
         PList [PDict [(''message'', PDict [(''content'', PStr yes_reply)])]])])),
      json_loads = (\<lambda>s. if s = yes_reply then Some yes_parsed else None),
      py_str = (\<lambda>v. ''?'')\<rparr>"

text \<open>A store that knows the sender of \<open>text_payload\<close> and holds no history yet.\<close>

definition demo_world :: world where
  "demo_world =
     \<lparr>users = [\<lparr>phone_number = PStr ''11234567890'', pinecone_namespace = PStr ''ns-1''\<rparr>],
      conversation_history = [],
      next_id = 0,
      clock = 0,
      trace = []\<rparr>"

text \<open>A text message that lacks the sender's number.\<close>

definition no_from_payload :: pyval where
  "no_from_payload =
     PDict [(''entry'', PList [PDict [(''changes'', PList [PDict [(''value'',
       PDict [(''messages'', PList [PDict [(''type'', PStr ''text''),
                                          (''text'', PDict [(''body'', PStr ''Hello'')])]])])]])]])]"

text \<open>A store in which the sender already has twenty history rows, numbered by age.\<close>

definition full_world :: world where
  "full_world =
     \<lparr>users = [\<lparr>phone_number = PStr ''11234567890'', pinecone_namespace = PStr ''ns-1''\<rparr>],
      conversation_history =
        map (\<lambda>i. \<lparr>row_id = i, user_phone_number = PStr ''11234567890'',
                   sender = (if even i then ''user'' else ''bot''), message = PInt (int i),
                   timestamp = i\<rparr>) [0..<20],
      next_id = 20,
      clock = 20,
      trace = []\<rparr>"

text \<open>A reply that is not JSON (a comma before the closing brace) and whose message is
  empty.\<close>

definition empty_message_reply :: string where
  "empty_message_reply = ''{\"message\": \"\",}''"

text \<open>A structured reply whose message is \<open>null\<close>, and backends that answer with it.\<close>

definition null_reply :: string where
  "null_reply = ''{\"message\": null}''"

definition null_reply_env :: env where
  "null_reply_env =
     demo_env\<lparr>generation_backend := (\<lambda>t. Some (PDict [(''choices'',
                   PList [PDict [(''message'', PDict [(''content'', PStr null_reply)])]])])),
               json_loads := (\<lambda>s. if s = null_reply then Some (PDict [(''message'', PNone)])
                                   else None)\<rparr>"

section \<open>Properties\<close>

subsection \<open>The acknowledgement and what escapes it\<close>

text \<open>
  Claim C4.  The claim is that the handler answers every POST body with \<open>"OK"\<close> and
  status 200 and that no internal error escapes it.  On the body \<open>{"entry": 5}\<close> the
  decoder evaluates \<open>payload['entry'][0]\<close>, which raises \<open>TypeError\<close>; the decoder
  catches \<open>KeyError\<close> and \<open>IndexError\<close> only, the handler catches nothing, and the
  exception leaves the handler before any response is built.
\<close>

theorem malformed_entry_escapes_handler:
  "handle_message e w (PDict [(''entry'', PInt 5)]) = (w, Inl TypeError)"
  by (simp add: handle_message_def parse_whatsapp_message_def parse_try_def bind_exc_def
      py_get_def)

theorem malformed_entry_escapes_handler_witness:
  "handle_message demo_env demo_world (PDict [(''entry'', PInt 5)]) = (demo_world, Inl TypeError)"
  using malformed_entry_escapes_handler [of demo_env demo_world] by simp

text \<open>
  Claim C10.  A payload that decodes to a text message whose body is the empty string
  is answered with \<open>"OK"\<close>, 200 and leaves the world as it was: no row is written and
  no request is issued to the store, the retriever, the generator or the provider.
\<close>

theorem empty_body_is_not_processed:
  "parse_try payload = Inr (Some (sender_phone, PStr [])) \<Longrightarrow>
   handle_message e w payload = (w, Inr (''OK'', 200))"
  by (simp add: handle_message_def parse_whatsapp_message_def ok_response_def)

theorem empty_body_is_not_processed_witness:
  "parse_try (text_payload []) = Inr (Some (PStr ''11234567890'', PStr []))
   \<and> handle_message demo_env demo_world (text_payload []) = (demo_world, Inr (''OK'', 200))"
proof -
  have p: "parse_try (text_payload []) = Inr (Some (PStr ''11234567890'', PStr []))"
    by (simp add: text_payload_def parse_try_def bind_exc_def py_get_def)
  show ?thesis
    using p empty_body_is_not_processed [OF p, of demo_env demo_world] by simp
qed

subsection \<open>The prompt\<close>

text \<open>
  Claim C9.  Composed with empty history and empty context, the request is the system
  block followed by one user block, which holds the CONTEXT section with the
  no-relevant-information placeholder, then the CONVERSATION HISTORY section with the
  no-previous-conversation placeholder, then the USER QUESTION section with the query;
  a query that is a \<open>str\<close> appears as it is.
\<close>

theorem compose_empty_history_and_context:
  "format_prompt e user_query [] [] =
     Inr [(''system'', system_prompt),
          (''user'',
           ''<<CONTEXT>>\<newline>(No relevant information found)\<newline><<END CONTEXT>>''
           @ ''\<newline>\<newline>''
           @ ''<<CONVERSATION HISTORY>>\<newline>(No previous conversation)\<newline><<END CONVERSATION HISTORY>>''
           @ ''\<newline>\<newline>''
           @ ''<<USER QUESTION>>\<newline>'' @ py_format e user_query
           @ ''\<newline><<END USER QUESTION>>'')]
   \<and> py_format e (PStr q) = q"
  by (simp add: format_prompt_def full_prompt_def context_section_def history_section_def
      user_question_section_def bind_exc_def py_format_def)

theorem compose_empty_history_and_context_witness:
  "format_prompt demo_env (PStr ''Is breakfast included?'') [] [] =
     Inr [(''system'', system_prompt),
          (''user'',
           ''<<CONTEXT>>\<newline>(No relevant information found)\<newline><<END CONTEXT>>''
           @ ''\<newline>\<newline>''
           @ ''<<CONVERSATION HISTORY>>\<newline>(No previous conversation)\<newline><<END CONVERSATION HISTORY>>''
           @ ''\<newline>\<newline>''
           @ ''<<USER QUESTION>>\<newline>Is breakfast included?\<newline><<END USER QUESTION>>'')]"
  using compose_empty_history_and_context
          [of demo_env "PStr ''Is breakfast included?''" "''Is breakfast included?''"]
  by simp

subsection \<open>The structured reply\<close>

text \<open>
  Claim C6.  When the content of the backend's reply is the JSON object
  \<open>{"message":"Yes","confidence":"high","source":"context","detected_language":"en"}\<close>,
  the generator returns exactly \<open>"Yes"\<close>.  Only the \<open>message\<close> entry of the decoded
  object is used: whatever the object holds beside it, the result is the same.
\<close>

theorem structured_reply_yields_message:
  assumes "format_prompt e user_query history context = Inr msgs"
      and "generation_backend e (trace w @ [GenerationCall msgs]) = Some response_data"
      and "reply_content response_data = Inr (PStr yes_reply)"
      and "json_loads e yes_reply = Some (PDict d)"
      and "map_of d ''message'' = Some (PStr ''Yes'')"
  shows "snd (get_llm_response e w user_query history context) = Inr (PStr ''Yes'')"
  using assms
  by (simp add: get_llm_response_def issue_def bind_exc_def extract_message_def
      parsed_message_def)

theorem structured_reply_yields_message_witness:
  "json_loads demo_env yes_reply = Some yes_parsed
   \<and> snd (get_llm_response demo_env demo_world (PStr ''Is breakfast included?'') [] [])
       = Inr (PStr ''Yes'')"
proof -
  obtain msgs where f: "format_prompt demo_env (PStr ''Is breakfast included?'') [] [] = Inr msgs"
    by (simp add: format_prompt_def full_prompt_def context_section_def bind_exc_def)
  have g: "generation_backend demo_env (trace demo_world @ [GenerationCall msgs]) =
             Some (PDict [(''choices'',
               PList [PDict [(''message'', PDict [(''content'', PStr yes_reply)])]])])"
    by (simp add: demo_env_def)
  have r: "reply_content (PDict [(''choices'',
               PList [PDict [(''message'', PDict [(''content'', PStr yes_reply)])]])])
             = Inr (PStr yes_reply)"
    by (simp add: reply_content_def bind_exc_def)
  have j: "json_loads demo_env yes_reply =
             Some (PDict [(''message'', PStr ''Yes''), (''confidence'', PStr ''high''),
                          (''source'', PStr ''context''), (''detected_language'', PStr ''en'')])"
    by (simp add: demo_env_def yes_parsed_def)
  have m: "map_of [(''message'', PStr ''Yes''), (''confidence'', PStr ''high''),
                   (''source'', PStr ''context''), (''detected_language'', PStr ''en'')]
             ''message'' = Some (PStr ''Yes'')"
    by simp
  show ?thesis
    using j structured_reply_yields_message [OF f g r j m] by (simp add: yes_parsed_def)
qed

subsection \<open>Decoding\<close>

text \<open>When the steps of the decoder return a value.\<close>

lemma bind_exc_Inr: "bind_exc m f = Inr r \<longleftrightarrow> (\<exists>x. m = Inr x \<and> f x = Inr r)"
  by (cases m) (simp_all add: bind_exc_def)

lemma py_get_default_Inr:
  "py_get_default v k d = Inr x \<longleftrightarrow>
     (\<exists>kv. v = PDict kv \<and> x = (case map_of kv k of None \<Rightarrow> d | Some y \<Rightarrow> y))"
  by (cases v) auto

lemma py_item_Inr: "py_item v k = Inr x \<longleftrightarrow> (\<exists>kv. v = PDict kv \<and> map_of kv k = Some x)"
  by (cases v) (auto split: option.splits)

lemma py_first_dict:
  "py_first v = Inr (PDict kv) \<longleftrightarrow> (\<exists>rest. v = PList (PDict kv # rest))"
  by (cases v) (auto split: list.splits)

lemma first_dict_Some:
  "first_dict v = Some kv \<longleftrightarrow> (\<exists>rest. v = Some (PList (PDict kv # rest)))"
  by (auto simp: first_dict_def split: option.splits pyval.splits list.splits)

lemma parse_try_complete:
  assumes "first_message payload = Some msg"
      and "map_of msg ''type'' = Some (PStr ''text'')"
      and "map_of msg ''from'' = Some s"
      and "map_of msg ''text'' = Some (PDict txt)"
      and "map_of txt ''body'' = Some t"
  shows "parse_try payload = Inr (Some (s, t))"
  using assms
  by (auto simp: first_message_def first_dict_Some parse_try_def bind_exc_def py_get_def
      split: pyval.splits option.splits)

lemma parse_try_sound:
  assumes "parse_try payload = Inr (Some (s, t))"
  shows "\<exists>msg txt. first_message payload = Some msg
           \<and> map_of msg ''type'' = Some (PStr ''text'')
           \<and> map_of msg ''from'' = Some s
           \<and> map_of msg ''text'' = Some (PDict txt)
           \<and> map_of txt ''body'' = Some t"
proof -
  from assms obtain kv entry where p: "payload = PDict kv"
    and e: "entry = (case map_of kv ''entry'' of None \<Rightarrow> PNone | Some y \<Rightarrow> y)" "truthy entry"
    by (auto simp: parse_try_def bind_exc_Inr py_get_def py_get_default_Inr split: if_splits)
  from assms p e obtain entry0 ekv changes where e0: "py_first entry = Inr entry0" "entry0 = PDict ekv"
    and c: "changes = (case map_of ekv ''changes'' of None \<Rightarrow> PNone | Some y \<Rightarrow> y)" "truthy changes"
    by (auto simp: parse_try_def bind_exc_Inr py_get_def py_get_default_Inr split: if_splits)
  from assms p e e0 c obtain change0 ckv val where c0: "py_first changes = Inr change0" "change0 = PDict ckv"
    and v: "val = (case map_of ckv ''value'' of None \<Rightarrow> PNone | Some y \<Rightarrow> y)" "truthy val"
    by (auto simp: parse_try_def bind_exc_Inr py_get_def py_get_default_Inr split: if_splits)
  from assms p e e0 c c0 v obtain vkv messages where v0: "val = PDict vkv"
    and m: "messages = (case map_of vkv ''messages'' of None \<Rightarrow> PNone | Some y \<Rightarrow> y)" "truthy messages"
    by (auto simp: parse_try_def bind_exc_Inr py_get_def py_get_default_Inr split: if_splits)
  from assms p e e0 c c0 v v0 m obtain md msg where m0: "py_first messages = Inr md" "md = PDict msg"
    and rest: "bind_exc (py_item md ''type'') (\<lambda>ty.
     if ty = PStr ''text'' then
       bind_exc (py_item md ''from'') (\<lambda>sender_phone.
       bind_exc (py_item md ''text'') (\<lambda>text.
       bind_exc (py_item text ''body'') (\<lambda>message_text.
       Inr (Some (sender_phone, message_text)))))
     else Inr None) = Inr (Some (s, t))"
    by (auto simp: parse_try_def bind_exc_Inr py_get_def py_get_default_Inr split: if_splits)
  from rest m0 obtain tkv where f: "map_of msg ''type'' = Some (PStr ''text'')"
     "map_of msg ''from'' = Some s" "map_of msg ''text'' = Some (PDict tkv)" "map_of tkv ''body'' = Some t"
    by (auto simp: bind_exc_Inr py_item_Inr split: if_splits option.splits)
  have "first_message payload = Some msg"
    using p e e0 c c0 v v0 m m0
    by (auto simp: first_message_def first_dict_def py_first_dict split: option.splits pyval.splits)
  with f show ?thesis by blast
qed

text \<open>
  Claim C5, as stated, fails: the payload below has an entry with a change whose value
  holds a non-empty messages list whose first message has type \<open>"text"\<close>, yet it has
  no \<open>from\<close>, the lookup raises \<open>KeyError\<close>, and the decoder returns
  \<open>(None, None)\<close>.
\<close>

theorem text_message_without_sender_is_not_decoded:
  "has_text_message no_from_payload
   \<and> parse_try no_from_payload = Inl KeyError
   \<and> parse_whatsapp_message no_from_payload = Inr (PNone, PNone)"
  by (simp add: no_from_payload_def has_text_message_def first_message_def first_dict_def
      parse_whatsapp_message_def parse_try_def bind_exc_def py_get_def)

text \<open>
  Claim C5, amended.  The decoder returns from its text branch with \<open>(s, t)\<close> if and
  only if the payload has a first message whose type is \<open>"text"\<close>, whose \<open>from\<close> is
  \<open>s\<close> and whose \<open>text\<close> is an object with \<open>body\<close> \<open>t\<close>; then the spec's
  condition holds and \<open>(s, t)\<close> is the function's result.  Whenever the function returns
  anything else it returns \<open>(None, None)\<close>, and on \<open>(None, None)\<close> the handler answers
  \<open>"OK"\<close>, 200 and leaves the world as it was: no store, search, generation or
  delivery request.
\<close>

theorem decode_succeeds_iff:
  "(parse_try payload = Inr (Some (s, t)) \<longleftrightarrow>
      (\<exists>msg tkv. first_message payload = Some msg
         \<and> map_of msg ''type'' = Some (PStr ''text'')
         \<and> map_of msg ''from'' = Some s
         \<and> map_of msg ''text'' = Some (PDict tkv)
         \<and> map_of tkv ''body'' = Some t))
   \<and> (parse_try payload = Inr (Some (s, t)) \<longrightarrow>
         has_text_message payload \<and> parse_whatsapp_message payload = Inr (s, t))
   \<and> (parse_whatsapp_message payload = Inr r \<and> parse_try payload \<noteq> Inr (Some r) \<longrightarrow>
         r = (PNone, PNone))
   \<and> (parse_whatsapp_message payload = Inr (PNone, PNone) \<longrightarrow>
         handle_message e w payload = (w, Inr (''OK'', 200)))"
proof (intro conjI impI)
  show "parse_try payload = Inr (Some (s, t)) \<longleftrightarrow>
      (\<exists>msg tkv. first_message payload = Some msg
         \<and> map_of msg ''type'' = Some (PStr ''text'')
         \<and> map_of msg ''from'' = Some s
         \<and> map_of msg ''text'' = Some (PDict tkv)
         \<and> map_of tkv ''body'' = Some t)"
    using parse_try_sound [of payload s t] parse_try_complete [of payload _ s _ t] by blast
next
  assume a: "parse_try payload = Inr (Some (s, t))"
  from parse_try_sound [OF a] show "has_text_message payload"
    by (auto simp: has_text_message_def)
  from a show "parse_whatsapp_message payload = Inr (s, t)"
    by (simp add: parse_whatsapp_message_def)
next
  assume "parse_whatsapp_message payload = Inr r \<and> parse_try payload \<noteq> Inr (Some r)"
  then show "r = (PNone, PNone)"
    by (auto simp: parse_whatsapp_message_def split: sum.splits option.splits py_error.splits)
next
  assume "parse_whatsapp_message payload = Inr (PNone, PNone)"
  then show "handle_message e w payload = (w, Inr (''OK'', 200))"
    by (simp add: handle_message_def ok_response_def)
qed

theorem decode_succeeds_iff_witness:
  "parse_try (text_payload ''Hello'') = Inr (Some (PStr ''11234567890'', PStr ''Hello''))
   \<and> has_text_message (text_payload ''Hello'')
   \<and> parse_whatsapp_message (text_payload ''Hello'') = Inr (PStr ''11234567890'', PStr ''Hello'')
   \<and> handle_message demo_env demo_world no_from_payload = (demo_world, Inr (''OK'', 200))"
proof -
  have a: "parse_try (text_payload ''Hello'') = Inr (Some (PStr ''11234567890'', PStr ''Hello''))"
    by (simp add: text_payload_def parse_try_def bind_exc_def py_get_def)
  have b: "parse_whatsapp_message no_from_payload = Inr (PNone, PNone)"
    by (simp add: no_from_payload_def parse_whatsapp_message_def parse_try_def bind_exc_def
        py_get_def)
  show ?thesis
    using a b
      decode_succeeds_iff [of "text_payload ''Hello''" "PStr ''11234567890''" "PStr ''Hello''"]
      decode_succeeds_iff [of no_from_payload _ _ _ demo_env demo_world]
    by simp
qed

subsection \<open>The bounded history\<close>

text \<open>What an append that the store carries out leaves in the table.\<close>

lemma filter_not_in_take:
  assumes "distinct xs"
  shows "filter (\<lambda>x. x \<notin> set (take k xs)) xs = drop k xs"
proof -
  define P where "P = (\<lambda>x. x \<notin> set (take k xs))"
  have disj: "set (take k xs) \<inter> set (drop k xs) = {}"
    using assms by (simp add: set_take_disj_set_drop_if_distinct)
  have a: "filter P (take k xs) = []"
    by (simp add: P_def)
  have b: "filter P (drop k xs) = drop k xs"
    using disj by (intro filter_True) (auto simp: P_def)
  have "filter P xs = filter P (take k xs @ drop k xs)"
    by simp
  also have "\<dots> = filter P (take k xs) @ filter P (drop k xs)"
    by (simp only: filter_append)
  finally show ?thesis
    by (simp add: a b) (simp add: P_def)
qed

lemma history_issue [simp]: "conversation_history (issue w c) = conversation_history w"
  by (simp add: issue_def)

lemma history_delete_rows [simp]:
  "conversation_history (delete_rows w ids) =
     filter (\<lambda>r. row_id r \<notin> set ids) (conversation_history w)"
  by (simp add: delete_rows_def)

lemma history_insert_issue [simp]:
  "conversation_history (insert_row (issue w c) phone role msg) =
     conversation_history (insert_row w phone role msg)"
  by (simp add: insert_row_def issue_def)

lemma add_message_history_raw:
  assumes ok: "\<forall>t. \<not> store_fails e t"
  shows "conversation_history (add_message_to_history e w phone role msg) =
     (let table1 = conversation_history (insert_row w phone role msg);
          sorted1 = oldest_first (rows_of phone table1);
          ids = map row_id (take (length sorted1 - 20) sorted1)
      in if 20 < length sorted1 \<and> ids \<noteq> []
         then filter (\<lambda>r. row_id r \<notin> set ids) table1 else table1)"
  using ok by (simp add: add_message_to_history_def Let_def)

lemma add_message_history:
  assumes ok: "\<forall>t. \<not> store_fails e t"
      and ids: "distinct (map row_id (conversation_history w))"
      and fresh: "\<forall>r\<in>set (conversation_history w). row_id r < next_id w"
  shows "conversation_history (add_message_to_history e w phone role msg) =
           filter (\<lambda>r. r \<notin> set (take
               (length (rows_of phone (conversation_history (insert_row w phone role msg))) - 20)
               (oldest_first (rows_of phone (conversation_history (insert_row w phone role msg))))))
             (conversation_history (insert_row w phone role msg))"
proof -
  define table1 where "table1 = conversation_history (insert_row w phone role msg)"
  define sorted1 where "sorted1 = oldest_first (rows_of phone table1)"
  define k where "k = length sorted1 - 20"
  have len: "length (rows_of phone table1) = length sorted1"
    by (simp add: sorted1_def oldest_first_def)
  have d1: "distinct (map row_id table1)"
    using ids fresh by (auto simp: table1_def insert_row_def)
  have inj: "inj_on row_id (set table1)"
    using d1 by (simp add: distinct_map)
  have sub: "set (take k sorted1) \<subseteq> set table1"
    using set_take_subset [of k sorted1] by (auto simp: sorted1_def oldest_first_def rows_of_def)
  have mem: "\<And>r. r \<in> set table1 \<Longrightarrow>
      (row_id r \<in> row_id ` set (take k sorted1)) = (r \<in> set (take k sorted1))"
    using inj_on_image_mem_iff [OF inj _ sub] by simp
  have flt: "filter (\<lambda>r. row_id r \<notin> set (map row_id (take k sorted1))) table1
               = filter (\<lambda>r. r \<notin> set (take k sorted1)) table1"
    by (rule filter_cong) (simp_all add: mem)
  have raw: "conversation_history (add_message_to_history e w phone role msg) =
      (if 20 < length sorted1 \<and> map row_id (take k sorted1) \<noteq> []
       then filter (\<lambda>r. row_id r \<notin> set (map row_id (take k sorted1))) table1 else table1)"
    using add_message_history_raw [OF ok, of w phone role msg]
    by (simp add: Let_def table1_def sorted1_def k_def)
  have "conversation_history (add_message_to_history e w phone role msg) =
          filter (\<lambda>r. r \<notin> set (take k sorted1)) table1"
  proof (cases "20 < length sorted1")
    case True
    then have "take k sorted1 \<noteq> []" by (auto simp: k_def)
    with True show ?thesis by (simp only: raw flt) simp
  next
    case False
    then have "k = 0" by (simp add: k_def)
    with False show ?thesis by (simp add: raw)
  qed
  then show ?thesis
    by (simp add: k_def sorted1_def table1_def oldest_first_def)
qed


lemma rows_of_filter:
  "rows_of phone (filter P rows) = filter P (rows_of phone rows)"
  by (auto simp: rows_of_def intro: filter_cong)

lemma oldest_first_filter:
  "oldest_first (filter P rows) = filter P (oldest_first rows)"
  by (simp add: oldest_first_def filter_sort)

text \<open>
  Claim C2.  Let the append complete (no request to the store raises), in a table whose
  row ids are distinct and below the next id to be assigned.  Let \<open>n\<close> be the number
  of the sender's rows after the insert and \<open>sorted1\<close> these rows oldest first.  Then
  afterwards the sender has \<open>min n 20\<close> rows, at most 20; the table is the table after
  the insert without the first \<open>n - 20\<close> rows of \<open>sorted1\<close>, every other row standing
  where it stood; exactly \<open>n - 20\<close> rows are gone; and reading the recent history
  returns the last 20 rows of \<open>sorted1\<close>, oldest first, with their sender and message.
\<close>

theorem append_bounds_history:
  fixes e :: env and w :: world and phone :: pyval and role :: string and msg :: pyval
  defines "table1 \<equiv> conversation_history (insert_row w phone role msg)"
  defines "sorted1 \<equiv> oldest_first (rows_of phone table1)"
  defines "n \<equiv> length (rows_of phone table1)"
  defines "w' \<equiv> add_message_to_history e w phone role msg"
  assumes ok: "\<forall>t. \<not> store_fails e t"
      and ids: "distinct (map row_id (conversation_history w))"
      and fresh: "\<forall>r\<in>set (conversation_history w). row_id r < next_id w"
  shows "length (rows_of phone (conversation_history w')) \<le> 20
       \<and> length (rows_of phone (conversation_history w')) = min n 20
       \<and> conversation_history w' = filter (\<lambda>r. r \<notin> set (take (n - 20) sorted1)) table1
       \<and> length table1 - length (conversation_history w') = n - 20
       \<and> snd (get_conversation_history e w' phone 20)
           = map (\<lambda>r. (sender r, message r)) (drop (n - 20) sorted1)"
proof -
  define k where "k = n - 20"
  define D where "D = set (take k sorted1)"
  have len: "length sorted1 = n"
    by (simp add: sorted1_def n_def oldest_first_def)
  have d1: "distinct (map row_id table1)"
    using ids fresh by (auto simp: table1_def insert_row_def)
  then have dt: "distinct table1" by (simp add: distinct_map)
  then have ds: "distinct sorted1" by (simp add: sorted1_def oldest_first_def rows_of_def)
  have T: "conversation_history w' = filter (\<lambda>r. r \<notin> D) table1"
    using add_message_history [OF ok ids fresh, of phone role msg]
    by (simp add: w'_def D_def k_def n_def sorted1_def table1_def)
  have S: "oldest_first (rows_of phone (conversation_history w')) = drop k sorted1"
    using filter_not_in_take [OF ds, of k]
    by (simp add: T rows_of_filter oldest_first_filter sorted1_def [symmetric] D_def)
  have "length (rows_of phone (conversation_history w'))
          = length (oldest_first (rows_of phone (conversation_history w')))"
    by (simp add: oldest_first_def)
  then have L: "length (rows_of phone (conversation_history w')) = min n 20"
    by (simp add: S len k_def)
  have Dsub: "D \<subseteq> set table1"
    using set_take_subset [of k sorted1] by (auto simp: D_def sorted1_def oldest_first_def rows_of_def)
  have cardD: "card D = k"
    using ds by (simp add: D_def distinct_card len k_def)
  have "length (filter (\<lambda>r. r \<in> D) table1) = card ({r. r \<in> D} \<inter> set table1)"
    using dt by (rule distinct_length_filter)
  also have "{r. r \<in> D} \<inter> set table1 = D" using Dsub by auto
  finally have "length (filter (\<lambda>r. r \<in> D) table1) = k" by (simp add: cardD)
  moreover have "length (filter (\<lambda>r. r \<in> D) table1) + length (filter (\<lambda>r. r \<notin> D) table1)
                  = length table1"
    by (rule sum_length_filter_compl)
  ultimately have C: "length table1 - length (conversation_history w') = k"
    by (simp add: T)
  have "length (drop k sorted1) \<le> 20" by (simp add: len k_def)
  then have tk: "take 20 (rev (drop k sorted1)) = rev (drop k sorted1)" by simp
  have F: "snd (get_conversation_history e w' phone 20)
             = map (\<lambda>r. (sender r, message r)) (drop k sorted1)"
    using ok by (simp add: get_conversation_history_def Let_def newest_first_def S tk)
  from L T C F show ?thesis by (simp add: D_def k_def)
qed

text \<open>The sample store with twenty rows: the next append drops the oldest row.\<close>

lemma full_world_sorted:
  "oldest_first (rows_of (PStr ''11234567890'')
     (conversation_history (insert_row full_world (PStr ''11234567890'') ''user'' (PStr ''new''))))
   = conversation_history (insert_row full_world (PStr ''11234567890'') ''user'' (PStr ''new''))"
proof -
  have "sorted (map timestamp (conversation_history
           (insert_row full_world (PStr ''11234567890'') ''user'' (PStr ''new''))))"
    by (simp add: full_world_def insert_row_def o_def sorted_append)
  then have "sort_key timestamp (conversation_history
           (insert_row full_world (PStr ''11234567890'') ''user'' (PStr ''new'')))
     = conversation_history (insert_row full_world (PStr ''11234567890'') ''user'' (PStr ''new''))"
    by (rule sort_key_id_if_sorted)
  moreover have "rows_of (PStr ''11234567890'') (conversation_history
           (insert_row full_world (PStr ''11234567890'') ''user'' (PStr ''new'')))
     = conversation_history (insert_row full_world (PStr ''11234567890'') ''user'' (PStr ''new''))"
    by (simp add: rows_of_def full_world_def insert_row_def)
  ultimately show ?thesis by (simp add: oldest_first_def)
qed

theorem append_bounds_history_witness:
  "length (rows_of (PStr ''11234567890'') (conversation_history
      (add_message_to_history demo_env full_world (PStr ''11234567890'') ''user'' (PStr ''new''))))
     = 20
   \<and> snd (get_conversation_history demo_env
        (add_message_to_history demo_env full_world (PStr ''11234567890'') ''user'' (PStr ''new''))
        (PStr ''11234567890'') 20)
     = map (\<lambda>i. (if even i then ''user'' else ''bot'', PInt (int i))) [1..<20]
         @ [(''user'', PStr ''new'')]"
proof -
  have ok: "\<forall>t. \<not> store_fails demo_env t" by (simp add: demo_env_def)
  have ids: "distinct (map row_id (conversation_history full_world))"
    by (simp add: full_world_def o_def)
  have fresh: "\<forall>r\<in>set (conversation_history full_world). row_id r < next_id full_world"
    by (auto simp: full_world_def)
  have n: "length (rows_of (PStr ''11234567890'') (conversation_history
             (insert_row full_world (PStr ''11234567890'') ''user'' (PStr ''new'')))) = 21"
    by (simp add: rows_of_def full_world_def insert_row_def)
  have d: "drop (Suc 0) (conversation_history
             (insert_row full_world (PStr ''11234567890'') ''user'' (PStr ''new'')))
        = map (\<lambda>i. \<lparr>row_id = i, user_phone_number = PStr ''11234567890'',
                   sender = (if even i then ''user'' else ''bot''), message = PInt (int i),
                   timestamp = i\<rparr>) [1..<20]
          @ [\<lparr>row_id = 20, user_phone_number = PStr ''11234567890'', sender = ''user'',
               message = PStr ''new'', timestamp = 20\<rparr>]"
    by (simp add: full_world_def insert_row_def drop_map)
  note bounds =
    append_bounds_history [OF ok ids fresh, of "PStr ''11234567890''" "''user''" "PStr ''new''"]
  have count: "length (rows_of (PStr ''11234567890'') (conversation_history
      (add_message_to_history demo_env full_world (PStr ''11234567890'') ''user'' (PStr ''new''))))
     = 20"
    using bounds [THEN conjunct2, THEN conjunct1] unfolding n by simp
  have recent: "snd (get_conversation_history demo_env
        (add_message_to_history demo_env full_world (PStr ''11234567890'') ''user'' (PStr ''new''))
        (PStr ''11234567890'') 20)
     = map (\<lambda>r. (sender r, message r)) (drop (Suc 0) (conversation_history
             (insert_row full_world (PStr ''11234567890'') ''user'' (PStr ''new''))))"
    using bounds [THEN conjunct2, THEN conjunct2, THEN conjunct2, THEN conjunct2]
    unfolding n full_world_sorted by simp
  show ?thesis
    unfolding count recent d by (simp add: o_def)
qed

subsection \<open>What the store holds after the pipeline's steps\<close>

text \<open>An inserted row is the newest of its sender, so it sorts last.\<close>

lemma insort_key_snoc:
  "f y \<le> f x \<Longrightarrow> insort_key f y (zs @ [x]) = insort_key f y zs @ [x]"
  by (induction zs) auto

lemma foldr_insort_snoc:
  "\<forall>y\<in>set xs. f y \<le> f x \<Longrightarrow>
     foldr (insort_key f) xs [x] = foldr (insort_key f) xs [] @ [x]"
  by (induction xs) (simp_all add: insort_key_snoc)

lemma sort_key_snoc:
  "\<forall>y\<in>set xs. f y \<le> f x \<Longrightarrow> sort_key f (xs @ [x]) = sort_key f xs @ [x]"
  by (simp add: sort_key_def foldr_insort_snoc)

lemma history_insert_row:
  "conversation_history (insert_row w phone role msg) =
     conversation_history w @ [inserted_row w phone role msg]"
  by (simp add: insert_row_def inserted_row_def)

lemma sorted_after_insert:
  assumes "wf_store w"
  shows "oldest_first (rows_of phone (conversation_history (insert_row w phone role msg))) =
           oldest_first (rows_of phone (conversation_history w)) @ [inserted_row w phone role msg]"
proof -
  have "\<forall>y\<in>set (rows_of phone (conversation_history w)).
          timestamp y \<le> timestamp (inserted_row w phone role msg)"
    using assms by (auto simp: wf_store_def rows_of_def inserted_row_def)
  then show ?thesis
    by (simp add: history_insert_row rows_of_def oldest_first_def sort_key_snoc inserted_row_def)
qed

text \<open>The steps other than the append leave the tables, the next id and the clock
  alone; the append keeps the store's invariant and keeps the sender's newest rows.\<close>

lemma same_store_refl [simp]: "same_store w w"
  by (simp add: same_store_def)

lemma same_store_trans: "same_store a b \<Longrightarrow> same_store b c \<Longrightarrow> same_store a c"
  by (simp add: same_store_def)

lemma same_store_issue [simp]: "same_store w (issue w c)"
  by (simp add: same_store_def issue_def)

lemma same_store_namespace: "get_user_namespace e w p = (w', ns) \<Longrightarrow> same_store w w'"
  by (auto simp: get_user_namespace_def Let_def same_store_def issue_def
      split: if_splits list.splits)

lemma same_store_recent: "get_conversation_history e w p n = (w', h) \<Longrightarrow> same_store w w'"
  by (auto simp: get_conversation_history_def Let_def same_store_def issue_def split: if_splits)

lemma same_store_embedding: "get_bedrock_embedding e w t = (w', v) \<Longrightarrow> same_store w w'"
  by (auto simp: get_bedrock_embedding_def Let_def same_store_def issue_def
      split: if_splits option.splits)

lemma same_store_query: "query_pinecone e w q ns k = (w', c) \<Longrightarrow> same_store w w'"
  by (auto simp: query_pinecone_def Let_def same_store_def issue_def
      split: prod.splits if_splits option.splits sum.splits dest!: same_store_embedding)

lemma same_store_llm: "get_llm_response e w q h c = (w', r) \<Longrightarrow> same_store w w'"
  by (auto simp: get_llm_response_def Let_def same_store_def issue_def
      split: sum.splits option.splits py_error.splits)

lemma wf_store_same: "same_store w w' \<Longrightarrow> wf_store w' = wf_store w"
  by (simp add: same_store_def wf_store_def)

lemma inserted_row_same:
  "same_store w w' \<Longrightarrow> inserted_row w' phone role msg = inserted_row w phone role msg"
  by (simp add: same_store_def inserted_row_def)


lemma wf_store_ids:
  "wf_store w \<Longrightarrow> distinct (map row_id (conversation_history w))"
  "wf_store w \<Longrightarrow> \<forall>r\<in>set (conversation_history w). row_id r < next_id w"
  by (simp_all add: wf_store_def)

lemma add_message_sorted:
  assumes ok: "\<forall>t. \<not> store_fails e t"
      and ids: "distinct (map row_id (conversation_history w))"
      and fresh: "\<forall>r\<in>set (conversation_history w). row_id r < next_id w"
  shows "oldest_first (rows_of phone (conversation_history (add_message_to_history e w phone role msg)))
           = drop (length (rows_of phone (conversation_history (insert_row w phone role msg))) - 20)
               (oldest_first (rows_of phone (conversation_history (insert_row w phone role msg))))"
proof -
  have "distinct (map row_id (conversation_history (insert_row w phone role msg)))"
    using ids fresh by (auto simp: insert_row_def)
  then have "distinct (oldest_first (rows_of phone (conversation_history (insert_row w phone role msg))))"
    by (simp add: distinct_map oldest_first_def rows_of_def)
  from filter_not_in_take [OF this] show ?thesis
    by (simp add: add_message_history [OF ok ids fresh] rows_of_filter oldest_first_filter)
qed

lemma add_message_newest:
  assumes ok: "\<forall>t. \<not> store_fails e t" and wf: "wf_store w"
  shows "\<exists>ys. oldest_first (rows_of phone
                 (conversation_history (add_message_to_history e w phone role msg)))
               = ys @ [inserted_row w phone role msg]"
proof -
  let ?old = "oldest_first (rows_of phone (conversation_history w))"
  have n: "length (rows_of phone (conversation_history (insert_row w phone role msg)))
             = Suc (length ?old)"
    by (simp add: history_insert_row rows_of_def oldest_first_def inserted_row_def)
  have "Suc (length ?old) - 20 \<le> length ?old" by simp
  then have "drop (Suc (length ?old) - 20) (?old @ [inserted_row w phone role msg])
          = drop (Suc (length ?old) - 20) ?old @ [inserted_row w phone role msg]"
    by simp
  then show ?thesis
    using add_message_sorted [OF ok wf_store_ids [OF wf], of phone role msg]
    by (simp add: sorted_after_insert [OF wf] n)
qed

lemma add_message_keeps_newest:
  assumes ok: "\<forall>t. \<not> store_fails e t" and wf: "wf_store w"
      and newest: "oldest_first (rows_of phone (conversation_history w)) = ys @ [r]"
  shows "\<exists>zs. oldest_first (rows_of phone
                 (conversation_history (add_message_to_history e w phone role msg)))
               = zs @ [r, inserted_row w phone role msg]"
proof -
  have n: "length (rows_of phone (conversation_history (insert_row w phone role msg)))
             = Suc (Suc (length ys))"
    using arg_cong [OF newest, of length]
    by (simp add: history_insert_row rows_of_def oldest_first_def inserted_row_def)
  have "Suc (Suc (length ys)) - 20 \<le> length ys" by simp
  then have "drop (Suc (Suc (length ys)) - 20) ((ys @ [r]) @ [inserted_row w phone role msg])
          = drop (Suc (Suc (length ys)) - 20) ys @ [r, inserted_row w phone role msg]"
    by simp
  then show ?thesis
    using add_message_sorted [OF ok wf_store_ids [OF wf], of phone role msg]
    by (simp add: sorted_after_insert [OF wf] n newest)
qed

lemma sorted_rows_in_table:
  "oldest_first (rows_of phone (conversation_history w)) = xs \<Longrightarrow> r \<in> set xs \<Longrightarrow>
     r \<in> set (conversation_history w)"
  by (auto simp: oldest_first_def rows_of_def)

lemma add_message_wf:
  assumes "wf_store w"
  shows "wf_store (add_message_to_history e w phone role msg)"
  using assms
  by (auto simp: add_message_to_history_def Let_def wf_store_def insert_row_def delete_rows_def
      issue_def distinct_map_filter less_Suc_eq le_Suc_eq)

lemma add_message_counters:
  assumes "\<forall>t. \<not> store_fails e t"
  shows "next_id (add_message_to_history e w phone role msg) = Suc (next_id w)"
    and "clock (add_message_to_history e w phone role msg) = Suc (clock w)"
  using assms
  by (simp_all add: add_message_to_history_def Let_def insert_row_def delete_rows_def issue_def)

subsection \<open>The paths of the orchestrator\<close>

text \<open>What each step of the pipeline adds to the trace.\<close>

lemma add_message_trace:
  "\<exists>trim. trace (add_message_to_history e w p role m) = trace w @ HistoryInsert p role m # trim
     \<and> list_all is_trim trim"
  by (simp add: add_message_to_history_def Let_def issue_def insert_row_def delete_rows_def)


lemma namespace_trace:
  "get_user_namespace e w p = (w', ns) \<Longrightarrow> trace w' = trace w @ [UsersSelect p]"
  by (auto simp: get_user_namespace_def Let_def issue_def split: if_splits list.splits)


lemma history_trace:
  "get_conversation_history e w p n = (w', h) \<Longrightarrow> trace w' = trace w @ [HistorySelectRecent p n]"
  by (auto simp: get_conversation_history_def Let_def issue_def split: if_splits)

lemma embedding_trace:
  "get_bedrock_embedding e w t = (w', v) \<Longrightarrow>
     (trace w' = trace w \<or> trace w' = trace w @ [EmbeddingCall t])"
  by (auto simp: get_bedrock_embedding_def Let_def issue_def split: if_splits option.splits)

lemma query_trace:
  "query_pinecone e w q ns k = (w', c) \<Longrightarrow>
     \<exists>retrieval. trace w' = trace w @ retrieval \<and> list_all is_retrieval retrieval"
  apply (simp add: query_pinecone_def Let_def issue_def split: prod.splits if_splits option.splits sum.splits)
  apply (auto dest!: embedding_trace)
  done

lemma llm_trace:
  "get_llm_response e w q h c = (w', Inr r) \<Longrightarrow> \<exists>msgs. trace w' = trace w @ [GenerationCall msgs]"
  by (auto simp: get_llm_response_def Let_def issue_def split: sum.splits option.splits py_error.splits)

lemma llm_trace_any:
  "get_llm_response e w q h c = (w', r) \<Longrightarrow> \<exists>ext. trace w' = trace w @ ext"
  by (auto simp: get_llm_response_def Let_def issue_def split: sum.splits option.splits py_error.splits)

lemma send_trace:
  "send_whatsapp_message w p t = (w', Inr u) \<Longrightarrow> trace w' = trace w @ [DeliveryCall p t]"
  by (auto simp: send_whatsapp_message_def issue_def split: if_splits)

text \<open>
  After a successful decode, an exception leaves the handler only when it leaves
  \<open>get_llm_response\<close> (a retrieved chunk that is not a \<open>str\<close> in the prompt, or a reply
  of the generation backend of the wrong shape): the apologies are \<open>str\<close>s and a reply
  that is returned and truthy can be sliced.
\<close>

lemma parsed_message_sliceable:
  "parsed_message v = Inr r \<Longrightarrow> truthy r \<Longrightarrow> sliceable r"
  by (auto simp: parsed_message_def bind_exc_Inr split: if_splits)

lemma llm_result_sliceable:
  assumes "get_llm_response e w q h c = (w', Inr r)" and "truthy r"
  shows "sliceable r"
proof -
  from assms obtain raw where "extract_message e raw = Inr r"
    by (auto simp: get_llm_response_def Let_def bind_exc_def
        split: sum.splits option.splits py_error.splits)
  with assms(2) show ?thesis
    by (auto simp: extract_message_def fallback_message_def
        split: pyval.splits option.splits if_splits dest: parsed_message_sliceable)
qed

lemma escape_only_from_generation:
  assumes p: "parse_whatsapp_message payload = Inr (sender_phone, user_query)"
      and esc: "handle_message e w payload = (w', Inl err)"
  shows "\<exists>w4 history ctx. get_llm_response e w4 user_query history ctx = (w', Inl err)"
proof -
  define w1 where "w1 = add_message_to_history e w sender_phone ''user'' user_query"
  obtain w2 ns where g: "get_user_namespace e w1 sender_phone = (w2, ns)" by fastforce
  obtain w3 history where h: "get_conversation_history e w2 sender_phone 20 = (w3, history)"
    by fastforce
  obtain w4 ctx where q: "query_pinecone e w3 user_query ns 5 = (w4, ctx)"
    by fastforce
  obtain w5 res where l: "get_llm_response e w4 user_query history ctx = (w5, res)"
    by fastforce
  have "w5 = w' \<and> res = Inl err"
  proof (cases res)
    case (Inl a)
    with p esc g h q l show ?thesis
      by (auto simp: handle_message_def Let_def w1_def [symmetric] send_whatsapp_message_def
          profile_apology_def split: if_splits)
  next
    case (Inr r)
    with l have "truthy r \<Longrightarrow> sliceable r" using llm_result_sliceable by blast
    with Inr p esc g h q l show ?thesis
      by (auto simp: handle_message_def Let_def w1_def [symmetric] send_whatsapp_message_def
          split: if_splits)
  qed
  with l show ?thesis by blast
qed

text \<open>The sample inputs, evaluated.\<close>

lemmas pipeline_defs =
  handle_message_def parse_whatsapp_message_def parse_try_def bind_exc_def py_get_def
  add_message_to_history_def insert_row_def delete_rows_def issue_def rows_of_def
  oldest_first_def newest_first_def get_user_namespace_def get_conversation_history_def
  get_bedrock_embedding_def query_pinecone_def match_text_def get_llm_response_def
  format_prompt_def full_prompt_def context_section_def reply_content_def
  extract_message_def parsed_message_def send_whatsapp_message_def ok_response_def Let_def

lemma parse_text_payload:
  "parse_whatsapp_message (text_payload body) = Inr (PStr ''11234567890'', PStr body)"
  by (simp add: text_payload_def parse_whatsapp_message_def parse_try_def bind_exc_def py_get_def)

lemma demo_run:
  "snd (handle_message demo_env demo_world (text_payload ''Is breakfast included?'')) = Inr (''OK'', 200)"
  by (simp add: pipeline_defs text_payload_def demo_env_def demo_world_def yes_parsed_def)





text \<open>
  The paths of the handler past the not-a-message exit, for a payload that decodes to a
  sender and a text that are both truthy.  In every run, whatever its outcome (an
  exception that leaves the handler included), the first request is the insert of the
  user's message, ahead of the namespace lookup; and when no request to the store raises
  and the store's invariant holds at the start, the row of that message is in the table
  at the end.  Whenever the handler returns its response, the response is \<open>"OK"\<close>,
  200 and the requests it issued have one of three shapes, which all start with that
  insert, its trim and the namespace lookup.  Unknown user: the profile apology is
  delivered, nothing else.  Generation failure: history read, retrieval, one generation
  request, then the generic apology is delivered.  Success: the same up to the generation
  request, then the generated reply is delivered and inserted as the bot's message (and,
  the store not failing, its row is in the table at the end).  Each shape holds exactly
  one delivery, and the bot's message is inserted on the success path only.
\<close>

theorem terminal_paths:
  assumes p: "parse_whatsapp_message payload = Inr (sender_phone, user_query)"
      and ts: "truthy sender_phone" and tq: "truthy user_query"
      and run: "handle_message e w payload = (w', result)"
  shows "(\<exists>rest. trace w' = trace w @ HistoryInsert sender_phone ''user'' user_query # rest)
       \<and> ((\<forall>t. \<not> store_fails e t) \<and> wf_store w \<longrightarrow>
             inserted_row w sender_phone ''user'' user_query \<in> set (conversation_history w'))
       \<and> (\<forall>response. result = Inr response \<longrightarrow>
           response = (''OK'', 200) \<and>
           (\<exists>trim. list_all is_trim trim \<and>
            (trace w' = trace w @ HistoryInsert sender_phone ''user'' user_query # trim
                 @ [UsersSelect sender_phone, DeliveryCall sender_phone (PStr profile_apology)]
             \<or> (\<exists>retrieval msgs. list_all is_retrieval retrieval \<and>
                   (trace w' = trace w @ HistoryInsert sender_phone ''user'' user_query # trim
                      @ [UsersSelect sender_phone, HistorySelectRecent sender_phone 20]
                      @ retrieval
                      @ [GenerationCall msgs, DeliveryCall sender_phone (PStr generic_apology)]
                    \<or> (\<exists>reply trim'. truthy reply \<and> list_all is_trim trim' \<and>
                          trace w' = trace w @ HistoryInsert sender_phone ''user'' user_query # trim
                            @ [UsersSelect sender_phone, HistorySelectRecent sender_phone 20]
                            @ retrieval
                            @ [GenerationCall msgs, DeliveryCall sender_phone reply,
                               HistoryInsert sender_phone ''bot'' reply]
                            @ trim'
                          \<and> ((\<forall>t. \<not> store_fails e t) \<and> wf_store w \<longrightarrow>
                                \<lparr>row_id = Suc (next_id w), user_phone_number = sender_phone,
                                  sender = ''bot'', message = reply, timestamp = Suc (clock w)\<rparr>
                                  \<in> set (conversation_history w'))))))))"
  (is "?early \<and> ?stored \<and> ?paths")
proof -
  define w1 where "w1 = add_message_to_history e w sender_phone ''user'' user_query"
  define u where "u = inserted_row w sender_phone ''user'' user_query"
  obtain trim where t1: "trace w1 = trace w @ HistoryInsert sender_phone ''user'' user_query # trim"
    and trim: "list_all is_trim trim"
    using add_message_trace [of e w sender_phone "''user''" user_query] by (auto simp: w1_def)
  have newest1: "\<exists>ys. oldest_first (rows_of sender_phone (conversation_history w1)) = ys @ [u]"
    if "(\<forall>t. \<not> store_fails e t) \<and> wf_store w"
    using that add_message_newest [of e w sender_phone "''user''" user_query]
    by (auto simp: w1_def u_def)
  have stored1: "u \<in> set (conversation_history w1)"
    if "(\<forall>t. \<not> store_fails e t) \<and> wf_store w"
    using newest1 [OF that] sorted_rows_in_table [of sender_phone w1] by auto
  obtain w2 ns where g: "get_user_namespace e w1 sender_phone = (w2, ns)" by fastforce
  have t2: "trace w2 = trace w1 @ [UsersSelect sender_phone]" using namespace_trace [OF g] .
  have s2: "same_store w1 w2" using same_store_namespace [OF g] .
  show ?thesis
  proof (cases "truthy ns")
    case False
    with p ts tq g run
    have w': "w' = issue w2 (DeliveryCall sender_phone (PStr profile_apology))"
      and r: "result = Inr (''OK'', 200)"
      by (auto simp: handle_message_def Let_def w1_def [symmetric] send_whatsapp_message_def
          ok_response_def)
    have tr: "trace w' = trace w @ HistoryInsert sender_phone ''user'' user_query # trim
                 @ [UsersSelect sender_phone, DeliveryCall sender_phone (PStr profile_apology)]"
      by (simp add: w' issue_def t2 t1)
    then have A: ?early by blast
    have "conversation_history w' = conversation_history w1"
      using s2 by (simp add: w' issue_def same_store_def)
    with stored1 have B: ?stored by (simp add: u_def)
    have C: ?paths using tr trim r by blast
    from A B C show ?thesis by (intro conjI)
  next
    case True
    obtain w3 history where h: "get_conversation_history e w2 sender_phone 20 = (w3, history)"
      by fastforce
    obtain w4 ctx where q: "query_pinecone e w3 user_query ns 5 = (w4, ctx)"
      by fastforce
    obtain w5 res where l: "get_llm_response e w4 user_query history ctx = (w5, res)"
      by fastforce
    have t3: "trace w3 = trace w2 @ [HistorySelectRecent sender_phone 20]"
      using history_trace [OF h] .
    obtain retrieval where t4: "trace w4 = trace w3 @ retrieval"
      and retr: "list_all is_retrieval retrieval"
      using query_trace [OF q] by blast
    have s5: "same_store w1 w5"
      using s2 same_store_recent [OF h] same_store_query [OF q] same_store_llm [OF l]
      by (blast intro: same_store_trans)
    show ?thesis
    proof (cases res)
      case (Inl err)
      with p ts tq g True h q l run have w': "w' = w5" and r: "result = Inl err"
        by (auto simp: handle_message_def Let_def w1_def [symmetric])
      obtain ext where "trace w5 = trace w4 @ ext" using llm_trace_any [OF l] by blast
      then have "trace w' = trace w @ HistoryInsert sender_phone ''user'' user_query #
                   (trim @ [UsersSelect sender_phone, HistorySelectRecent sender_phone 20]
                      @ retrieval @ ext)"
        by (simp add: w' t4 t3 t2 t1)
      then have A: ?early by blast
      have "conversation_history w' = conversation_history w1"
        using s5 by (simp add: w' same_store_def)
      with stored1 have B: ?stored by (simp add: u_def)
      have C: ?paths using r by simp
      from A B C show ?thesis by (intro conjI)
    next
      case (Inr bot_response)
      obtain msgs where t5: "trace w5 = trace w4 @ [GenerationCall msgs]"
        using llm_trace l Inr by blast
      show ?thesis
      proof (cases "truthy bot_response")
        case False
        with p ts tq g True h q l Inr run
        have w': "w' = issue w5 (DeliveryCall sender_phone (PStr generic_apology))"
          and r: "result = Inr (''OK'', 200)"
          by (auto simp: handle_message_def Let_def w1_def [symmetric] send_whatsapp_message_def
              ok_response_def)
        have tr: "trace w' = trace w @ HistoryInsert sender_phone ''user'' user_query # trim
                      @ [UsersSelect sender_phone, HistorySelectRecent sender_phone 20]
                      @ retrieval
                      @ [GenerationCall msgs, DeliveryCall sender_phone (PStr generic_apology)]"
          by (simp add: w' issue_def t5 t4 t3 t2 t1)
        then have A: ?early by blast
        have "conversation_history w' = conversation_history w1"
          using s5 by (simp add: w' issue_def same_store_def)
        with stored1 have B: ?stored by (simp add: u_def)
        have C: ?paths using tr trim retr r by blast
        from A B C show ?thesis by (intro conjI)
      next
        case tb: True
        define w6 where "w6 = issue w5 (DeliveryCall sender_phone bot_response)"
        define b where "b = \<lparr>row_id = Suc (next_id w), user_phone_number = sender_phone,
                                  sender = ''bot'', message = bot_response,
                                  timestamp = Suc (clock w)\<rparr>"
        have sl: "sliceable bot_response"
          using llm_result_sliceable [of e w4 user_query history ctx w5 bot_response] l Inr tb
          by simp
        from sl tb p ts tq g True h q l Inr run
        have w': "w' = add_message_to_history e w6 sender_phone ''bot'' bot_response"
          and r: "result = Inr (''OK'', 200)"
          by (auto simp: handle_message_def Let_def w1_def [symmetric] send_whatsapp_message_def
              ok_response_def w6_def split: if_splits)
        obtain trim' where t7: "trace w' = trace w6 @ HistoryInsert sender_phone ''bot'' bot_response # trim'"
          and trim': "list_all is_trim trim'"
          using add_message_trace [of e w6 sender_phone "''bot''" bot_response] by (auto simp: w')
        have tr: "trace w' = trace w @ HistoryInsert sender_phone ''user'' user_query # trim
                            @ [UsersSelect sender_phone, HistorySelectRecent sender_phone 20]
                            @ retrieval
                            @ [GenerationCall msgs, DeliveryCall sender_phone bot_response,
                               HistoryInsert sender_phone ''bot'' bot_response]
                            @ trim'"
          by (simp add: t7 w6_def issue_def t5 t4 t3 t2 t1)
        then have A: ?early by blast
        have s6: "same_store w1 w6"
          using s5 by (simp add: w6_def same_store_def issue_def)
        have both: "u \<in> set (conversation_history w') \<and> b \<in> set (conversation_history w')"
          if ok: "(\<forall>t. \<not> store_fails e t) \<and> wf_store w"
        proof -
          from ok have wf1: "wf_store w1" by (simp add: w1_def add_message_wf)
          then have wf6: "wf_store w6" using wf_store_same [OF s6] by simp
          from newest1 [OF ok] obtain ys where
            "oldest_first (rows_of sender_phone (conversation_history w1)) = ys @ [u]" by blast
          then have n6: "oldest_first (rows_of sender_phone (conversation_history w6)) = ys @ [u]"
            using s6 by (simp add: same_store_def)
          from ok have c1: "next_id w1 = Suc (next_id w)" "clock w1 = Suc (clock w)"
            by (simp_all add: w1_def add_message_counters)
          have b6: "inserted_row w6 sender_phone ''bot'' bot_response = b"
            using s6 c1 by (simp add: inserted_row_def b_def same_store_def)
          from ok wf6 n6 obtain zs where
            "oldest_first (rows_of sender_phone (conversation_history w')) = zs @ [u, b]"
            using add_message_keeps_newest [of e w6 sender_phone ys u "''bot''" bot_response]
            by (auto simp: w' b6)
          then show ?thesis
            using sorted_rows_in_table [of sender_phone w'] by auto
        qed
        then have B: ?stored by (simp add: u_def)
        have C: ?paths using both tb trim trim' retr r tr unfolding b_def by blast
        from A B C show ?thesis by (intro conjI)
      qed
    qed
  qed
qed

theorem terminal_paths_witness:
  "\<exists>w'. handle_message demo_env demo_world (text_payload ''Is breakfast included?'')
           = (w', Inr (''OK'', 200))
     \<and> (\<exists>trim. list_all is_trim trim \<and>
            (trace w' = trace demo_world @ HistoryInsert (PStr ''11234567890'') ''user'' (PStr ''Is breakfast included?'') # trim
                 @ [UsersSelect (PStr ''11234567890''), DeliveryCall (PStr ''11234567890'') (PStr profile_apology)]
             \<or> (\<exists>retrieval msgs. list_all is_retrieval retrieval \<and>
                   (trace w' = trace demo_world @ HistoryInsert (PStr ''11234567890'') ''user'' (PStr ''Is breakfast included?'') # trim
                      @ [UsersSelect (PStr ''11234567890''), HistorySelectRecent (PStr ''11234567890'') 20]
                      @ retrieval
                      @ [GenerationCall msgs, DeliveryCall (PStr ''11234567890'') (PStr generic_apology)]
                    \<or> (\<exists>reply trim'. truthy reply \<and> list_all is_trim trim' \<and>
                          trace w' = trace demo_world @ HistoryInsert (PStr ''11234567890'') ''user'' (PStr ''Is breakfast included?'') # trim
                            @ [UsersSelect (PStr ''11234567890''), HistorySelectRecent (PStr ''11234567890'') 20]
                            @ retrieval
                            @ [GenerationCall msgs, DeliveryCall (PStr ''11234567890'') reply,
                               HistoryInsert (PStr ''11234567890'') ''bot'' reply]
                            @ trim'
                          \<and> \<lparr>row_id = Suc (next_id demo_world), user_phone_number = PStr ''11234567890'',
                               sender = ''bot'', message = reply, timestamp = Suc (clock demo_world)\<rparr>
                              \<in> set (conversation_history w'))))))
     \<and> inserted_row demo_world (PStr ''11234567890'') ''user'' (PStr ''Is breakfast included?'')
         \<in> set (conversation_history w')"
proof -
  obtain w' where r: "handle_message demo_env demo_world (text_payload ''Is breakfast included?'')
                        = (w', Inr (''OK'', 200))"
    using demo_run by (metis prod.collapse)
  have ts: "truthy (PStr ''11234567890'')" and tq: "truthy (PStr ''Is breakfast included?'')"
    by simp_all
  have ok: "\<forall>t. \<not> store_fails demo_env t" by (simp add: demo_env_def)
  have wf: "wf_store demo_world" by (simp add: wf_store_def demo_world_def)
  show ?thesis
    using r ok wf terminal_paths [OF parse_text_payload ts tq r] by blast
qed

text \<open>
  Claim C1.  The claim is that every terminal path other than not-a-message sends exactly
  one outbound message.  Let the generation backend answer a text message of a known
  sender with the content \<open>{"message": null}\<close>.  The content parses, \<open>message\<close> is
  \<open>None\<close>, and the \<open>print\<close> that slices it raises \<open>TypeError\<close>, which none of the
  \<open>except\<close> clauses of \<open>get_llm_response\<close> catches and the handler does not catch
  either: the run ends after the generation request, with the user's message stored, no
  response returned and no delivery request issued, neither of a reply nor of an
  apology.
\<close>

theorem null_message_reply_escapes_handler:
  "body \<noteq> [] \<Longrightarrow>
   \<exists>msgs. handle_message null_reply_env demo_world (text_payload body) =
     (\<lparr>users = users demo_world,
       conversation_history =
         [\<lparr>row_id = 0, user_phone_number = PStr ''11234567890'', sender = ''user'',
           message = PStr body, timestamp = 0\<rparr>],
       next_id = 1,
       clock = 1,
       trace = [HistoryInsert (PStr ''11234567890'') ''user'' (PStr body),
                HistorySelectAll (PStr ''11234567890''),
                UsersSelect (PStr ''11234567890''),
                HistorySelectRecent (PStr ''11234567890'') 20,
                EmbeddingCall (PStr body),
                SimilaritySearch (PStr ''ns-1'') (PList [PInt 1, PInt 2, PInt 3]) 5,
                GenerationCall msgs]\<rparr>,
      Inl TypeError)"
  by (simp add: pipeline_defs text_payload_def null_reply_env_def demo_env_def demo_world_def)

theorem null_message_reply_escapes_handler_witness:
  "\<exists>msgs. handle_message null_reply_env demo_world (text_payload ''Is breakfast included?'') =
     (\<lparr>users = users demo_world,
       conversation_history =
         [\<lparr>row_id = 0, user_phone_number = PStr ''11234567890'', sender = ''user'',
           message = PStr ''Is breakfast included?'', timestamp = 0\<rparr>],
       next_id = 1,
       clock = 1,
       trace = [HistoryInsert (PStr ''11234567890'') ''user'' (PStr ''Is breakfast included?''),
                HistorySelectAll (PStr ''11234567890''),
                UsersSelect (PStr ''11234567890''),
                HistorySelectRecent (PStr ''11234567890'') 20,
                EmbeddingCall (PStr ''Is breakfast included?''),
                SimilaritySearch (PStr ''ns-1'') (PList [PInt 1, PInt 2, PInt 3]) 5,
                GenerationCall msgs]\<rparr>,
      Inl TypeError)"
  using null_message_reply_escapes_handler [of "''Is breakfast included?''"] by simp

subsection \<open>Retrieval\<close>

text \<open>The loop over the matches collects the truthy metadata texts, in order.\<close>

lemma match_text_metadata:
  "match_text m = (case metadata_text m of Some t \<Rightarrow> if truthy t then [t] else [] | None \<Rightarrow> [])"
  by (cases m)
     (auto simp: match_text_def metadata_text_def bind_exc_def split: option.splits pyval.splits)

lemma collect_matches:
  "concat (map match_text ms) = filter truthy (List.map_filter metadata_text ms)"
  by (induction ms) (auto simp: match_text_metadata List.map_filter_simps split: option.splits)

lemma collect_answer:
  "(case answer of None \<Rightarrow> [] | Some query_result \<Rightarrow>
      (case py_item query_result ''matches'' of Inl err \<Rightarrow> [] | Inr ms \<Rightarrow> collect_contexts ms))
   = filter truthy (List.map_filter metadata_text (ranked_matches answer))"
proof (cases answer)
  case None
  then show ?thesis by (simp add: ranked_matches_def List.map_filter_simps)
next
  case (Some r)
  show ?thesis
  proof (cases r)
    case (PDict kv)
    show ?thesis
    proof (cases "map_of kv ''matches''")
      case None
      with Some PDict show ?thesis by (simp add: ranked_matches_def List.map_filter_simps)
    next
      case (Some ms)
      with \<open>answer = Some r\<close> PDict show ?thesis
        by (cases ms) (simp_all add: ranked_matches_def List.map_filter_simps collect_matches)
    qed
  qed (simp_all add: Some ranked_matches_def List.map_filter_simps)
qed

text \<open>
  Claim C8.  When the embedding comes back empty (or otherwise falsy) the retriever
  returns the empty list and has issued at most the embedding request, no similarity
  search.  Otherwise it issues one search and returns, in the backend's ranking order,
  the truthy \<open>text\<close> fields of the matches' metadata; a match without that field
  contributes nothing and nothing stands in for it.
\<close>

theorem retrieve_chunks:
  assumes emb: "get_bedrock_embedding e w query_text = (w1, query_embedding)"
  shows "(\<not> truthy query_embedding \<longrightarrow>
            query_pinecone e w query_text namespace top_k = (w1, [])
            \<and> (trace w1 = trace w \<or> trace w1 = trace w @ [EmbeddingCall query_text]))
       \<and> (truthy query_embedding \<longrightarrow>
            query_pinecone e w query_text namespace top_k =
              (issue w1 (SimilaritySearch namespace query_embedding top_k),
               filter truthy (List.map_filter metadata_text (ranked_matches
                 (search_backend e (trace w1 @ [SimilaritySearch namespace query_embedding top_k]))))))"
proof (intro conjI impI)
  assume "\<not> truthy query_embedding"
  with emb show "query_pinecone e w query_text namespace top_k = (w1, [])"
    by (simp add: query_pinecone_def)
next
  show "trace w1 = trace w \<or> trace w1 = trace w @ [EmbeddingCall query_text]"
    using emb
    by (auto simp: get_bedrock_embedding_def Let_def issue_def split: if_splits option.splits)
next
  assume t: "truthy query_embedding"
  define w2 where "w2 = issue w1 (SimilaritySearch namespace query_embedding top_k)"
  have tr: "trace w2 = trace w1 @ [SimilaritySearch namespace query_embedding top_k]"
    by (simp add: w2_def issue_def)
  have "query_pinecone e w query_text namespace top_k =
          (w2, case search_backend e (trace w2) of None \<Rightarrow> [] | Some query_result \<Rightarrow>
      (case py_item query_result ''matches'' of Inl err \<Rightarrow> [] | Inr ms \<Rightarrow> collect_contexts ms))"
    using emb t
    by (simp add: query_pinecone_def Let_def w2_def [symmetric] split: option.splits sum.splits)
  then show "query_pinecone e w query_text namespace top_k =
              (issue w1 (SimilaritySearch namespace query_embedding top_k),
               filter truthy (List.map_filter metadata_text (ranked_matches
                 (search_backend e (trace w1 @ [SimilaritySearch namespace query_embedding top_k])))))"
    by (simp add: collect_answer tr) (simp add: w2_def)
qed

theorem retrieve_chunks_witness:
  "query_pinecone demo_env demo_world (PStr ''Is breakfast included?'') (PStr ''ns-1'') 5 =
     (issue (issue demo_world (EmbeddingCall (PStr ''Is breakfast included?'')))
        (SimilaritySearch (PStr ''ns-1'') (PList [PInt 1, PInt 2, PInt 3]) 5),
      [PStr ''Breakfast is served 7-10.''])
   \<and> query_pinecone (demo_env\<lparr>embedding_backend := (\<lambda>t. None)\<rparr>) demo_world
         (PStr ''Is breakfast included?'') (PStr ''ns-1'') 5 =
       (issue demo_world (EmbeddingCall (PStr ''Is breakfast included?'')), [])"
proof -
  have a: "get_bedrock_embedding demo_env demo_world (PStr ''Is breakfast included?'') =
             (issue demo_world (EmbeddingCall (PStr ''Is breakfast included?'')),
              PList [PInt 1, PInt 2, PInt 3])"
    by (simp add: get_bedrock_embedding_def demo_env_def Let_def)
  have b: "get_bedrock_embedding (demo_env\<lparr>embedding_backend := (\<lambda>t. None)\<rparr>) demo_world
             (PStr ''Is breakfast included?'') =
             (issue demo_world (EmbeddingCall (PStr ''Is breakfast included?'')), PList [])"
    by (simp add: get_bedrock_embedding_def Let_def)
  show ?thesis
    using retrieve_chunks [OF a, of "PStr ''ns-1''" 5] retrieve_chunks [OF b, of "PStr ''ns-1''" 5]
    by (simp add: demo_env_def ranked_matches_def metadata_text_def List.map_filter_simps)
qed

subsection \<open>The salvage of a malformed reply\<close>

text \<open>
  The pattern matches at the start of a string exactly when the string starts with
  \<open>"message"\<close>, whitespace, a colon, whitespace, and a quoted text without a quote in
  it; the search
  finds a match exactly when some suffix has one, and the salvage then returns the text
  of the leftmost one.
\<close>

lemma match_at_Some:
  "match_at s = Some g \<longleftrightarrow>
     (\<exists>r1 r2 post. s = ''\"message\"'' @ r1 \<and> skip_ws r1 = CHR '':'' # r2
        \<and> skip_ws r2 = CHR 0x22 # g @ CHR 0x22 # post \<and> CHR 0x22 \<notin> set g)"
proof
  assume m: "match_at s = Some g"
  then have p: "prefix ''\"message\"'' s"
    by (auto simp: match_at_def split: if_splits)
  then obtain r1 where s: "s = ''\"message\"'' @ r1"
    by (auto simp: prefix_def)
  then have d: "drop 9 s = r1" by simp
  from m p d obtain r2 where a: "skip_ws r1 = CHR '':'' # r2"
    by (auto simp: match_at_def split: list.splits if_splits)
  from m p d a obtain r3 where b: "skip_ws r2 = CHR 0x22 # r3"
    by (auto simp: match_at_def split: list.splits if_splits)
  from m p d a b obtain q post where c: "dropWhile (\<lambda>x. x \<noteq> CHR 0x22) r3 = q # post"
    and g: "g = takeWhile (\<lambda>x. x \<noteq> CHR 0x22) r3"
    by (auto simp: match_at_def split: list.splits if_splits)
  from c have "q = CHR 0x22"
    using hd_dropWhile [of "\<lambda>x. x \<noteq> CHR 0x22" r3] by simp
  with c g have "r3 = g @ CHR 0x22 # post"
    using takeWhile_dropWhile_id [of "\<lambda>x. x \<noteq> CHR 0x22" r3] by simp
  moreover have "CHR 0x22 \<notin> set g"
    using g set_takeWhileD [of "CHR 0x22" "\<lambda>x. x \<noteq> CHR 0x22" r3] by auto
  ultimately show "\<exists>r1 r2 post. s = ''\"message\"'' @ r1 \<and> skip_ws r1 = CHR '':'' # r2
        \<and> skip_ws r2 = CHR 0x22 # g @ CHR 0x22 # post \<and> CHR 0x22 \<notin> set g"
    using s a b by blast
next
  assume "\<exists>r1 r2 post. s = ''\"message\"'' @ r1 \<and> skip_ws r1 = CHR '':'' # r2
        \<and> skip_ws r2 = CHR 0x22 # g @ CHR 0x22 # post \<and> CHR 0x22 \<notin> set g"
  then obtain r1 r2 post where s: "s = ''\"message\"'' @ r1" and a: "skip_ws r1 = CHR '':'' # r2"
    and b: "skip_ws r2 = CHR 0x22 # g @ CHR 0x22 # post" and g: "CHR 0x22 \<notin> set g"
    by blast
  from g have t: "takeWhile (\<lambda>x. x \<noteq> CHR 0x22) (g @ CHR 0x22 # post) = g"
    by (subst takeWhile_append2) auto
  from g have d: "dropWhile (\<lambda>x. x \<noteq> CHR 0x22) (g @ CHR 0x22 # post) = CHR 0x22 # post"
    by (subst dropWhile_append2) auto
  from s have "prefix ''\"message\"'' s" and "drop 9 s = r1" by simp_all
  then show "match_at s = Some g"
    by (simp add: match_at_def a b t d)
qed

lemma re_search_sound:
  "re_search raw = Some g \<Longrightarrow> \<exists>pre s. raw = pre @ s \<and> match_at s = Some g"
proof (induction raw)
  case Nil
  then show ?case by simp
next
  case (Cons c cs)
  show ?case
  proof (cases "match_at (c # cs)")
    case (Some g')
    with Cons.prems have "match_at (c # cs) = Some g" by simp
    then show ?thesis by (metis append_Nil)
  next
    case None
    with Cons.prems have "re_search cs = Some g" by simp
    with Cons.IH obtain pre s where "cs = pre @ s" "match_at s = Some g" by blast
    then have "c # cs = (c # pre) @ s" by simp
    with \<open>match_at s = Some g\<close> show ?thesis by blast
  qed
qed

lemma re_search_complete:
  "match_at s = Some g \<Longrightarrow> \<exists>g'. re_search (pre @ s) = Some g'"
proof (induction pre)
  case Nil
  then show ?case by (cases s) (auto simp: match_at_def)
next
  case (Cons c pre)
  then show ?case by (cases "match_at (c # pre @ s)") auto
qed

lemma contains_iff: "contains pat s \<longleftrightarrow> (\<exists>pre post. s = pre @ pat @ post)"
proof (induction s)
  case Nil
  then show ?case by auto
next
  case (Cons c cs)
  show ?case
  proof
    assume "contains pat (c # cs)"
    then consider "prefix pat (c # cs)" | "contains pat cs" by auto
    then show "\<exists>pre post. c # cs = pre @ pat @ post"
    proof cases
      case 1
      then show ?thesis by (metis append_Nil prefix_def)
    next
      case 2
      with Cons.IH obtain pre post where "cs = pre @ pat @ post" by blast
      then have "c # cs = (c # pre) @ pat @ post" by simp
      then show ?thesis by blast
    qed
  next
    assume "\<exists>pre post. c # cs = pre @ pat @ post"
    then obtain pre post where e: "c # cs = pre @ pat @ post" by blast
    show "contains pat (c # cs)"
    proof (cases pre)
      case Nil
      with e have "c # cs = pat @ post" by simp
      then have "prefix pat (c # cs)" by (rule prefixI)
      then show ?thesis by simp
    next
      case (Cons d pre')
      with e have "cs = pre' @ pat @ post" by simp
      with Cons.IH show ?thesis by auto
    qed
  qed
qed

lemma salvage_sound:
  assumes "fallback_message raw = PStr g"
  shows "\<exists>pre r1 r2 post. raw = pre @ ''\"message\"'' @ r1 \<and> skip_ws r1 = CHR '':'' # r2
           \<and> skip_ws r2 = CHR 0x22 # g @ CHR 0x22 # post \<and> CHR 0x22 \<notin> set g"
proof -
  from assms have "re_search raw = Some g"
    by (auto simp: fallback_message_def split: if_splits option.splits)
  then obtain pre s where "raw = pre @ s" "match_at s = Some g"
    using re_search_sound by blast
  then show ?thesis by (auto simp: match_at_Some)
qed

lemma salvage_complete:
  assumes "raw = pre @ ''\"message\"'' @ r1" and "skip_ws r1 = CHR '':'' # r2"
      and "skip_ws r2 = CHR 0x22 # g @ CHR 0x22 # post" and "CHR 0x22 \<notin> set g"
  shows "\<exists>g'. fallback_message raw = PStr g'"
proof -
  have "match_at (''\"message\"'' @ r1) = Some g"
    using assms(2-4) by (subst match_at_Some) blast
  then obtain g' where "re_search (pre @ ''\"message\"'' @ r1) = Some g'"
    using re_search_complete by blast
  moreover have "contains ''\"message\"'' raw"
    using assms(1) by (subst contains_iff) blast
  ultimately show ?thesis by (simp add: fallback_message_def assms(1))
qed

text \<open>The spec's examples: a reply that is not JSON but holds \<open>"message": "Hello"\<close>
  yields \<open>Hello\<close>; a reply without \<open>"message"\<close> yields \<open>None\<close>.\<close>

lemma salvage_example: "fallback_message ''not json but contains \"message\": \"Hello\"'' = PStr ''Hello''"
  by (simp add: fallback_message_def match_at_def skip_ws.simps ws_width_def)

lemma salvage_of_empty_message: "fallback_message empty_message_reply = PStr []"
  by (simp add: empty_message_reply_def fallback_message_def match_at_def skip_ws.simps ws_width_def)

lemma salvage_without_message: "\<not> contains ''\"message\"'' raw \<Longrightarrow> fallback_message raw = PNone"
  by (simp add: fallback_message_def)

text \<open>
  Claim C7.  The claim is that a reply that fails strict parsing and whose extracted
  message is empty makes the generator return its failure, \<open>None\<close>.  On the content
  \<open>{"message": "",}\<close> the pattern matches with an empty group and the salvage branch
  returns it as it is: the result is the empty string, not \<open>None\<close>.  (The branch for
  a reply that parses tests \<open>if not message\<close> and returns \<open>None\<close>; the salvage
  branch has no such test.)
\<close>

theorem empty_salvage_is_returned:
  assumes "format_prompt e user_query history context = Inr msgs"
      and "generation_backend e (trace w @ [GenerationCall msgs]) = Some response_data"
      and "reply_content response_data = Inr (PStr empty_message_reply)"
      and "json_loads e empty_message_reply = None"
  shows "snd (get_llm_response e w user_query history context) = Inr (PStr [])"
  using assms
  by (simp add: get_llm_response_def issue_def bind_exc_def extract_message_def salvage_of_empty_message)

theorem empty_salvage_is_returned_witness:
  "snd (get_llm_response
          (demo_env\<lparr>generation_backend := (\<lambda>t. Some (PDict [(''choices'',
             PList [PDict [(''message'', PDict [(''content'', PStr empty_message_reply)])]])]))\<rparr>)
          demo_world (PStr ''Is breakfast included?'') [] [])
     = Inr (PStr [])"
proof -
  let ?e = "demo_env\<lparr>generation_backend := (\<lambda>t. Some (PDict [(''choices'',
             PList [PDict [(''message'', PDict [(''content'', PStr empty_message_reply)])]])]))\<rparr>"
  obtain msgs where f: "format_prompt ?e (PStr ''Is breakfast included?'') [] [] = Inr msgs"
    by (simp add: format_prompt_def full_prompt_def context_section_def bind_exc_def)
  have g: "generation_backend ?e (trace demo_world @ [GenerationCall msgs]) =
             Some (PDict [(''choices'',
               PList [PDict [(''message'', PDict [(''content'', PStr empty_message_reply)])]])])"
    by simp
  have r: "reply_content (PDict [(''choices'',
               PList [PDict [(''message'', PDict [(''content'', PStr empty_message_reply)])]])])
             = Inr (PStr empty_message_reply)"
    by (simp add: reply_content_def bind_exc_def)
  have j: "json_loads ?e empty_message_reply = None"
    by (simp add: demo_env_def empty_message_reply_def yes_reply_def)
  show ?thesis
    using empty_salvage_is_returned [OF f g r j] .
qed

end
